theory Spec2Isabelle
  imports Main
begin

section \<open>appleLoops: manifest resolution and download orchestration\<close>

text \<open>
  A shallow embedding of \<^verbatim>\<open>src/appleLoops.py\<close> (class \<^verbatim>\<open>AppleLoops\<close>). Python
  strings are \<open>string\<close>, Python's unbounded integers are \<open>int\<close>, exceptions are the
  left summand of a result type, \<^verbatim>\<open>None\<close> is the \<open>None\<close> of an option type, and the
  instance attributes that the methods mutate are the fields of a state record that every
  operation takes and returns.
\<close>

subsection \<open>Python values and string methods\<close>

datatype py_error =
  ValueError | IndexError | KeyError | ZeroDivisionError | OSError | URLError | PlistError

text \<open>Truthiness of a value that is \<^verbatim>\<open>True\<close>, \<^verbatim>\<open>False\<close> or \<^verbatim>\<open>None\<close>.\<close>

fun truthy :: "bool option \<Rightarrow> bool" where
  "truthy None = False"
| "truthy (Some b) = b"

text \<open>\<^verbatim>\<open>s.startswith(p)\<close>, \<^verbatim>\<open>s.endswith(p)\<close> and \<^verbatim>\<open>p in s\<close> on strings.\<close>

definition startswith :: "string \<Rightarrow> string \<Rightarrow> bool" where
  "startswith s p = (take (length p) s = p)"

definition endswith :: "string \<Rightarrow> string \<Rightarrow> bool" where
  "endswith s p = (length p \<le> length s \<and> drop (length s - length p) s = p)"

fun py_contains :: "string \<Rightarrow> string \<Rightarrow> bool" where
  "py_contains [] p = (p = [])"
| "py_contains (c # cs) p = (startswith (c # cs) p \<or> py_contains cs p)"

text \<open>\<^verbatim>\<open>s.split(c)\<close> for a one-character separator: never empty, \<^verbatim>\<open>''.split('/') == ['']\<close>.\<close>

fun py_split :: "char \<Rightarrow> string \<Rightarrow> string list" where
  "py_split c [] = [[]]"
| "py_split c (x # xs) =
     (if x = c then [] # py_split c xs
      else (case py_split c xs of
              [] \<Rightarrow> [[x]]
            | w # ws \<Rightarrow> (x # w) # ws))"

text \<open>\<^verbatim>\<open>s.rstrip('/')\<close>, \<^verbatim>\<open>s.strip()\<close>, \<^verbatim>\<open>s.replace('.', '')\<close> and the slice \<^verbatim>\<open>s[-4:]\<close>.\<close>

definition rstrip_slash :: "string \<Rightarrow> string" where
  "rstrip_slash s = rev (dropWhile (\<lambda>c. c = CHR ''/'') (rev s))"

definition is_space :: "char \<Rightarrow> bool" where
  "is_space c = (c \<in> set [CHR '' '', CHR 0x09, CHR 0x0A, CHR 0x0B, CHR 0x0C, CHR 0x0D])"

definition py_strip :: "string \<Rightarrow> string" where
  "py_strip s = rev (dropWhile is_space (rev (dropWhile is_space s)))"

definition remove_dots :: "string \<Rightarrow> string" where
  "remove_dots s = filter (\<lambda>c. c \<noteq> CHR ''.'') s"

definition last4 :: "string \<Rightarrow> string" where
  "last4 s = drop (length s - 4) s"

text \<open>
  A package size as the code holds it: the feed's \<^verbatim>\<open>DownloadSize\<close> is a number or a
  string, the \<^verbatim>\<open>Content-Length\<close> header is a string. \<^verbatim>\<open>int(x)\<close> of a string accepts
  surrounding white space, one sign and decimal digits, and raises \<^verbatim>\<open>ValueError\<close>
  otherwise.
\<close>

datatype size_val = SizeInt int | SizeStr string

definition is_digit :: "char \<Rightarrow> bool" where
  "is_digit c = (c \<in> set ''0123456789'')"

definition digit_val :: "char \<Rightarrow> int" where
  "digit_val c = int (of_char c) - 48"

definition digits_val :: "string \<Rightarrow> int" where
  "digits_val ds = foldl (\<lambda>acc c. 10 * acc + digit_val c) 0 ds"

definition int_of_digits :: "string \<Rightarrow> py_error + int" where
  "int_of_digits ds =
     (if ds \<noteq> [] \<and> list_all is_digit ds then Inr (digits_val ds) else Inl ValueError)"

definition int_of_string :: "string \<Rightarrow> py_error + int" where
  "int_of_string s =
     (case py_strip s of
        [] \<Rightarrow> Inl ValueError
      | c # cs \<Rightarrow>
          if c = CHR ''-'' then map_sum id uminus (int_of_digits cs)
          else if c = CHR ''+'' then int_of_digits cs
          else int_of_digits (c # cs))"

fun py_int :: "size_val \<Rightarrow> py_error + int" where
  "py_int (SizeInt n) = Inr n"
| "py_int (SizeStr s) = int_of_string s"

text \<open>
  \<^verbatim>\<open>float(x)\<close>. The sizes the tool handles are byte counts, which a double holds
  exactly (below \<open>2^53\<close>), so the float is carried as its integer value. A string that
  \<^verbatim>\<open>int\<close> refuses is refused here too; the float literals with a fraction or an
  exponent that \<^verbatim>\<open>float\<close> alone accepts are outside the model, and the theorems
  below that depend on \<^verbatim>\<open>float\<close> are stated for sizes that \<^verbatim>\<open>int\<close> accepts.
\<close>

definition py_float :: "size_val \<Rightarrow> py_error + int" where
  "py_float x = py_int x"

text \<open>\<^verbatim>\<open>package_size.replace('.', '')\<close> inside \<^verbatim>\<open>try/except: pass\<close>: only a string has the method.\<close>

fun normalise_size :: "size_val \<Rightarrow> size_val" where
  "normalise_size (SizeStr s) = SizeStr (remove_dots s)"
| "normalise_size (SizeInt n) = SizeInt n"

subsection \<open>Paths\<close>

text \<open>\<^verbatim>\<open>os.path.join(a, b)\<close>, \<^verbatim>\<open>os.path.basename(p)\<close> and \<^verbatim>\<open>os.path.splitext(p)[0]\<close> (POSIX).\<close>

definition os_path_join :: "string \<Rightarrow> string \<Rightarrow> string" where
  "os_path_join a b =
     (if startswith b ''/'' then b
      else if a = [] \<or> endswith a ''/'' then a @ b
      else a @ ''/'' @ b)"

definition os_path_basename :: "string \<Rightarrow> string" where
  "os_path_basename p = last (py_split CHR ''/'' p)"

text \<open>
  \<^verbatim>\<open>splitext\<close> cuts at the last dot of the last path component, unless that component
  has only dots before it.
\<close>

definition splitext_root :: "string \<Rightarrow> string" where
  "splitext_root p =
     (let base = os_path_basename p;
          dir_len = length p - length base;
          stem = rev (drop 1 (dropWhile (\<lambda>c. c \<noteq> CHR ''.'') (rev base)))
      in if CHR ''.'' \<in> set base \<and> (\<exists>c \<in> set stem. c \<noteq> CHR ''.'')
         then take dir_len p @ stem
         else p)"

subsection \<open>Configuration and the URL Resolver\<close>

text \<open>
  The attributes \<^verbatim>\<open>__init__\<close> sets and no method changes. \<^verbatim>\<open>caching_server\<close> is
  \<open>None\<close> or the given address without its trailing slashes; \<^verbatim>\<open>cache_base_url\<close> and
  \<^verbatim>\<open>source_url\<close> exist only when an address was given.
\<close>

record config =
  download_location :: string
  dry_run :: bool
  mandatory_pkg :: bool
  optional_pkg :: bool
  caching_server :: "string option"
  cache_base_url :: string
  source_url :: string
  jss_mode :: bool
  dmg_path :: "string option"

definition base_url :: string where
  "base_url = ''http://audiocontentdownload.apple.com/lp10_ms3_content_''"

definition alt_loop_feed_base_url :: string where
  "alt_loop_feed_base_url =
     ''https://raw.githubusercontent.com/carlashley/appleLoops/master/lp10_ms3_content_''"

text \<open>\<^verbatim>\<open>urlparse(url).netloc\<close> of an absolute URL: what stands between \<^verbatim>\<open>//\<close> and the next slash.\<close>

definition netloc :: "string \<Rightarrow> string" where
  "netloc url = (case py_split CHR ''/'' url of
                   _ # _ # host # _ \<Rightarrow> host
                 | _ \<Rightarrow> [])"

text \<open>Lines 127 to 136 of \<^verbatim>\<open>__init__\<close>: the caching-server argument, \<open>None\<close> when not given.\<close>

definition configure_cache :: "string option \<Rightarrow> config \<Rightarrow> config" where
  "configure_cache arg cfg =
     (case arg of
        None \<Rightarrow> cfg\<lparr>caching_server := None\<rparr>
      | Some a \<Rightarrow>
          if a = [] then cfg\<lparr>caching_server := None\<rparr>
          else cfg\<lparr>caching_server := Some (rstrip_slash a),
                   source_url := ''?source='' @ netloc base_url,
                   cache_base_url := rstrip_slash a @ ''/lp10_ms3_content_''\<rparr>)"

text \<open>\<^verbatim>\<open>if self.caching_server\<close>: neither \<^verbatim>\<open>None\<close> nor the empty string.\<close>

definition cache_configured :: "config \<Rightarrow> bool" where
  "cache_configured cfg = (case caching_server cfg of None \<Rightarrow> False | Some a \<Rightarrow> a \<noteq> [])"

definition build_url :: "config \<Rightarrow> string \<Rightarrow> string \<Rightarrow> string" where
  "build_url cfg loop_year filename =
     (if cache_configured cfg \<and> endswith filename ''.pkg''
      then (cache_base_url cfg @ loop_year) @ ''/'' @ (filename @ source_url cfg)
      else (base_url @ loop_year) @ ''/'' @ filename)"

subsection \<open>Package records and the manifest\<close>

text \<open>The named tuple \<^verbatim>\<open>Loop\<close>; two tuples are equal when all seven fields are.\<close>

record loop =
  pkg_name :: string
  pkg_url :: string
  pkg_mandatory :: bool
  pkg_size :: size_val
  pkg_year :: string
  pkg_loop_for :: string
  pkg_plist :: string

subsection \<open>The filesystem\<close>

text \<open>
  What \<^verbatim>\<open>os.stat\<close> reports of a path, and the download tree as the list of its
  existing paths in the order the filesystem lists them. Paths are compared as strings.
  \<open>fs_blksize\<close> and \<open>fs_dirsize\<close> are what the filesystem reports for a file or a
  directory it creates.
\<close>

record stat =
  st_size :: nat
  st_blksize :: nat
  st_isdir :: bool

record filesys =
  fs_entries :: "(string \<times> stat) list"
  fs_blksize :: nat
  fs_dirsize :: nat

definition os_stat :: "filesys \<Rightarrow> string \<Rightarrow> stat option" where
  "os_stat fsys p = map_of (fs_entries fsys) p"

definition os_path_isdir :: "filesys \<Rightarrow> string \<Rightarrow> bool" where
  "os_path_isdir fsys p = (case os_stat fsys p of None \<Rightarrow> False | Some st \<Rightarrow> st_isdir st)"

fun put_entry :: "string \<Rightarrow> stat \<Rightarrow> (string \<times> stat) list \<Rightarrow> (string \<times> stat) list" where
  "put_entry p st [] = [(p, st)]"
| "put_entry p st ((q, st') # es) =
     (if q = p then (p, st) # es else (q, st') # put_entry p st es)"

definition fs_put :: "filesys \<Rightarrow> string \<Rightarrow> stat \<Rightarrow> filesys" where
  "fs_put fsys p st = fsys\<lparr>fs_entries := put_entry p st (fs_entries fsys)\<rparr>"

definition new_file :: "filesys \<Rightarrow> nat \<Rightarrow> stat" where
  "new_file fsys n = \<lparr>st_size = n, st_blksize = fs_blksize fsys, st_isdir = False\<rparr>"

definition new_dir :: "filesys \<Rightarrow> stat" where
  "new_dir fsys = \<lparr>st_size = fs_dirsize fsys, st_blksize = fs_blksize fsys, st_isdir = True\<rparr>"

text \<open>
  \<^verbatim>\<open>glob.glob\<close> belongs to the standard library, not to the repository: the
  operations that call it take it as a parameter, a function from the tree and the
  pattern to the paths it returns, in the order it returns them.
\<close>

type_synonym globber = "filesys \<Rightarrow> string \<Rightarrow> string list"

text \<open>
  \<^verbatim>\<open>os.makedirs\<close> creates the missing ancestors and then the directory, and raises
  when a path on the way exists and is no directory. \<^verbatim>\<open>make_storage_location\<close>
  calls it for a folder that is no directory yet (\<^verbatim>\<open>expanduser\<close> is the identity on a
  path that does not start with a tilde).
\<close>

definition ancestors :: "string \<Rightarrow> string list" where
  "ancestors p = map (\<lambda>i. take i p) (filter (\<lambda>i. p ! i = CHR ''/'') [1..<length p]) @ [p]"

fun mkdir_all :: "filesys \<Rightarrow> string list \<Rightarrow> py_error + filesys" where
  "mkdir_all fsys [] = Inr fsys"
| "mkdir_all fsys (d # ds) =
     (case os_stat fsys d of
        Some st \<Rightarrow> if st_isdir st then mkdir_all fsys ds else Inl OSError
      | None \<Rightarrow> mkdir_all (fs_put fsys d (new_dir fsys)) ds)"

definition make_storage_location :: "filesys \<Rightarrow> string \<Rightarrow> py_error + filesys" where
  "make_storage_location fsys folder =
     (if \<not> os_path_isdir fsys folder then mkdir_all fsys (ancestors folder) else Inr fsys)"

text \<open>\<^verbatim>\<open>shutil.copy2(src, dst)\<close> and \<^verbatim>\<open>open(path, 'wb')\<close>.\<close>

definition copy2 :: "filesys \<Rightarrow> string \<Rightarrow> string \<Rightarrow> py_error + filesys" where
  "copy2 fsys src dst =
     (case os_stat fsys src of
        None \<Rightarrow> Inl OSError
      | Some st \<Rightarrow>
          if st_isdir st then Inl OSError
          else let dst' = (if os_path_isdir fsys dst
                           then os_path_join dst (os_path_basename src) else dst)
               in if os_path_isdir fsys dst' then Inl OSError
                  else Inr (fs_put fsys dst' (new_file fsys (st_size st))))"

definition open_wb :: "filesys \<Rightarrow> string \<Rightarrow> py_error + filesys" where
  "open_wb fsys p =
     (if os_path_isdir fsys p then Inl OSError else Inr (fs_put fsys p (new_file fsys 0)))"

subsection \<open>The Completeness Oracle and the Duplicate Locator\<close>

text \<open>
  \<^verbatim>\<open>file_exists\<close> returns \<^verbatim>\<open>True\<close>, \<^verbatim>\<open>False\<close> or, when the path does not exist,
  nothing (\<^verbatim>\<open>None\<close>). Both quotients are Python 2 integer divisions, which round down
  as \<open>div\<close> on \<open>int\<close> does.
\<close>

definition file_exists :: "filesys \<Rightarrow> loop \<Rightarrow> string \<Rightarrow> py_error + bool option" where
  "file_exists fsys l local_file =
     (case os_stat fsys local_file of
        None \<Rightarrow> Inr None
      | Some st \<Rightarrow>
          let block_size = int (st_blksize st) in
          (case py_int (pkg_size l) of
             Inl e \<Rightarrow> Inl e
           | Inr declared \<Rightarrow>
               if block_size = 0 then Inl ZeroDivisionError
               else let remote_blocks = declared div block_size;
                        local_blocks = int (st_size st) div block_size
                    in if local_blocks \<ge> remote_blocks then Inr (Some True)
                       else Inr (Some False)))"

text \<open>The oracle declares a file complete when it returns a true value.\<close>

definition declares_complete :: "py_error + bool option \<Rightarrow> bool" where
  "declares_complete r = (case r of Inl e \<Rightarrow> False | Inr b \<Rightarrow> truthy b)"

text \<open>
  The loop of \<^verbatim>\<open>duplicate_file\<close>: its body returns in both branches, so only the first
  path of the list is ever examined; an empty list falls off the end of the function.
\<close>

fun duplicate_scan :: "filesys \<Rightarrow> loop \<Rightarrow> string list \<Rightarrow> py_error + bool option" where
  "duplicate_scan fsys l [] = Inr None"
| "duplicate_scan fsys l (path # rest) =
     (case file_exists fsys l (os_path_join path (pkg_name l)) of
        Inl e \<Rightarrow> Inl e
      | Inr r \<Rightarrow> if truthy r then Inr (Some True) else Inr (Some False))"

text \<open>The pattern of lines 481 and 497: \<^verbatim>\<open>'%s/*/*/*/' % self.download_location\<close>.\<close>

definition glob_pattern :: "config \<Rightarrow> string" where
  "glob_pattern cfg = download_location cfg @ ''/*/*/*/''"

definition duplicate_file ::
  "globber \<Rightarrow> config \<Rightarrow> filesys \<Rightarrow> loop \<Rightarrow> py_error + bool option" where
  "duplicate_file glob cfg fsys l = duplicate_scan fsys l (glob fsys (glob_pattern cfg))"

definition local_directory :: "config \<Rightarrow> loop \<Rightarrow> string" where
  "local_directory cfg l =
     (let directory_path = os_path_join (download_location cfg) (pkg_plist l)
      in if pkg_mandatory l then os_path_join directory_path ''mandatory''
         else os_path_join directory_path ''optional'')"

definition local_file_of :: "config \<Rightarrow> loop \<Rightarrow> string" where
  "local_file_of cfg l = os_path_join (local_directory cfg l) (pkg_name l)"

subsection \<open>The network, the feed and the run state\<close>

text \<open>
  A sub-feed entry as the decoded plist gives it: \<^verbatim>\<open>DownloadName\<close> and
  \<^verbatim>\<open>DownloadSize\<close> are there in every entry of the feed's schema, \<^verbatim>\<open>IsMandatory\<close>
  may be missing.
\<close>

record pkg_entry =
  DownloadName :: string
  IsMandatory :: "bool option"
  DownloadSize :: size_val

text \<open>
  One \<^verbatim>\<open>request.read(8192)\<close>: a chunk of so many bytes (none at the end of the
  body) or an exception of the transport.
\<close>

datatype read_result = Chunk nat | ReadError

text \<open>
  What \<^verbatim>\<open>urllib2.urlopen\<close> answers for a URL: the packages of the body when it decodes
  as a sub-feed (\<^verbatim>\<open>readPlistFromString(...)['Packages']\<close>, in the order the dictionary
  iterates), the \<^verbatim>\<open>Content-Length\<close> header when there is one, and the reads of the
  body. \<open>None\<close> for a URL is any exception of \<^verbatim>\<open>request_url\<close>.
\<close>

record response =
  resp_packages :: "pkg_entry list option"
  resp_content_length :: "string option"
  resp_reads :: "read_result list"

type_synonym network = "string \<Rightarrow> response option"

definition request_url :: "network \<Rightarrow> string \<Rightarrow> response option" where
  "request_url net url = net url"

text \<open>
  What the run prints and does outside the download tree. The pause is
  \<^verbatim>\<open>sleep(uniform(1, 2))\<close>; the event keeps the two bounds of the draw.
\<close>

datatype event =
    Msg_processing string
  | Msg_failover string
  | Msg_copy string
  | Msg_copied string
  | Msg_skip string
  | Msg_skipped string
  | Msg_download string int
  | Msg_downloading string int
  | Msg_progress string
  | Msg_newline
  | Msg_to_download nat nat int
  | Msg_downloaded nat int
  | Msg_build_dmg string
  | Run_hdiutil string string
  | Request_close
  | Sleep_uniform nat nat

text \<open>
  The attributes the methods change (\<^verbatim>\<open>master_list\<close>, \<^verbatim>\<open>download_amount\<close>), the
  download tree and the trace of events.
\<close>

record state =
  master_list :: "loop list"
  download_amount :: "int list"
  fs :: filesys
  events :: "event list"

definition emit :: "event \<Rightarrow> state \<Rightarrow> state" where
  "emit ev s = s\<lparr>events := events s @ [ev]\<rparr>"

text \<open>A \<^verbatim>\<open>for\<close> loop whose body may raise: the first exception ends the loop.\<close>

fun for_each :: "('a \<Rightarrow> 's \<Rightarrow> py_error + 's) \<Rightarrow> 'a list \<Rightarrow> 's \<Rightarrow> py_error + 's" where
  "for_each body [] s = Inr s"
| "for_each body (x # xs) s =
     (case body x s of
        Inl e \<Rightarrow> Inl e
      | Inr s' \<Rightarrow> for_each body xs s')"

subsection \<open>The Manifest Builder\<close>

definition add_loop ::
  "string \<Rightarrow> string \<Rightarrow> bool \<Rightarrow> size_val \<Rightarrow> string \<Rightarrow> string \<Rightarrow> string \<Rightarrow> state \<Rightarrow> state" where
  "add_loop package_name package_url package_mandatory package_size package_year
       loop_for plist s =
     (let l = \<lparr>pkg_name = package_name,
                pkg_url = package_url,
                pkg_mandatory = package_mandatory,
                pkg_size = normalise_size package_size,
                pkg_year = package_year,
                pkg_loop_for = loop_for,
                pkg_plist = plist\<rparr>
      in if l \<notin> set (master_list s)
         then s\<lparr>master_list := master_list s @ [l]\<rparr>
         else s)"

text \<open>Lines 311 to 327: the name and the URL of an entry, with the fix for a name in \<^verbatim>\<open>../\<close>.\<close>

definition legacy_origin :: string where
  "legacy_origin = ''http://audiocontentdownload.apple.com/''"

definition entry_name_url :: "config \<Rightarrow> string \<Rightarrow> pkg_entry \<Rightarrow> string \<times> string" where
  "entry_name_url cfg loop_year e =
     (let name = DownloadName e;
          url = build_url cfg loop_year name
      in if startswith name ''../''
         then (os_path_basename name, legacy_origin @ drop 3 name)
         else (name, url))"

definition entry_mandatory :: "pkg_entry \<Rightarrow> bool" where
  "entry_mandatory e = (case IsMandatory e of Some b \<Rightarrow> b | None \<Rightarrow> False)"

text \<open>Line 330: \<^verbatim>\<open>[x[-4:] for x in url.split('/') if 'lp10_ms3' in x][0]\<close>.\<close>

definition marker_years :: "string \<Rightarrow> string list" where
  "marker_years url =
     map last4 (filter (\<lambda>x. py_contains x ''lp10_ms3'') (py_split CHR ''/'' url))"

definition url_year :: "string \<Rightarrow> py_error + string" where
  "url_year url = (case marker_years url of [] \<Rightarrow> Inl IndexError | y # _ \<Rightarrow> Inr y)"

text \<open>
  Lines 333 to 340: the size probe under a bare \<^verbatim>\<open>except\<close>. Any exception of the
  request, and a missing header (\<^verbatim>\<open>None.strip()\<close>), selects the feed's size.
\<close>

definition size_probe :: "network \<Rightarrow> string \<Rightarrow> size_val option" where
  "size_probe net url =
     (case request_url net url of
        None \<Rightarrow> None
      | Some request \<Rightarrow>
          (case resp_content_length request of
             None \<Rightarrow> None
           | Some h \<Rightarrow> Some (SizeStr (py_strip h))))"

definition entry_size :: "network \<Rightarrow> string \<Rightarrow> pkg_entry \<Rightarrow> size_val" where
  "entry_size net url e =
     (case size_probe net url of
        Some sz \<Rightarrow> sz
      | None \<Rightarrow> DownloadSize e)"

text \<open>Lines 343 to 356: the mandatory/optional filter in front of \<^verbatim>\<open>add_loop\<close>.\<close>

definition filter_add ::
  "config \<Rightarrow> string \<Rightarrow> string \<Rightarrow> bool \<Rightarrow> size_val \<Rightarrow> string \<Rightarrow> string \<Rightarrow> string \<Rightarrow>
   state \<Rightarrow> state" where
  "filter_add cfg name url mandatory sz year loop_for plist s =
     (let s1 = (if mandatory_pkg cfg \<and> \<not> optional_pkg cfg
                then (if mandatory then add_loop name url mandatory sz year loop_for plist s
                      else s)
                else if optional_pkg cfg \<and> \<not> mandatory_pkg cfg
                then (if \<not> mandatory then add_loop name url mandatory sz year loop_for plist s
                      else s)
                else s)
      in if \<not> mandatory_pkg cfg \<and> \<not> optional_pkg cfg
         then add_loop name url mandatory sz year loop_for plist s1
         else s1)"

text \<open>One turn of the loop over \<^verbatim>\<open>data['Packages']\<close>.\<close>

definition process_pkg ::
  "config \<Rightarrow> network \<Rightarrow> string \<Rightarrow> string \<Rightarrow> string \<Rightarrow> pkg_entry \<Rightarrow> state \<Rightarrow>
   py_error + state" where
  "process_pkg cfg net loop_year loop_for plist e s =
     (case entry_name_url cfg loop_year e of
        (name, url) \<Rightarrow>
          (case url_year url of
             Inl err \<Rightarrow> Inl err
           | Inr year \<Rightarrow>
               Inr (filter_add cfg name url (entry_mandatory e) (entry_size net url e)
                      year loop_for plist s)))"

text \<open>
  \<^verbatim>\<open>process_plist\<close>: the feed is fetched from its URL and, when that raises, from the
  mirror; a body that does not decode raises.
\<close>

definition fetch_plist :: "config \<Rightarrow> network \<Rightarrow> string \<Rightarrow> string \<Rightarrow> state \<Rightarrow>
   py_error + response \<times> state" where
  "fetch_plist cfg net loop_year plist s =
     (let plist_url = build_url cfg loop_year plist;
          alt_plist_url = alt_loop_feed_base_url @ loop_year @ ''/'' @ plist
      in case request_url net plist_url of
           Some request \<Rightarrow> Inr (request, s)
         | None \<Rightarrow>
             (case request_url net alt_plist_url of
                Some request \<Rightarrow> Inr (request, emit (Msg_failover alt_plist_url) s)
              | None \<Rightarrow> Inl URLError))"

definition process_plist :: "config \<Rightarrow> network \<Rightarrow> string \<Rightarrow> string \<Rightarrow> state \<Rightarrow> py_error + state" where
  "process_plist cfg net loop_year plist s =
     (case fetch_plist cfg net loop_year plist (emit (Msg_processing plist) s) of
        Inl err \<Rightarrow> Inl err
      | Inr (request, s1) \<Rightarrow>
          (case resp_packages request of
             None \<Rightarrow> Inl PlistError
           | Some packages \<Rightarrow>
               let loop_for = filter (\<lambda>c. \<not> is_digit c) (splitext_root plist)
               in for_each (process_pkg cfg net loop_year loop_for (splitext_root plist))
                    packages s1))"

text \<open>
  \<^verbatim>\<open>build_master_list\<close>: the feeds of the selected package sets and years, all of
  them or those named in \<^verbatim>\<open>files_process\<close>. \<^verbatim>\<open>loop_feed_locations[pkg_set][year]\<close>
  raises for an unknown key.
\<close>

record selection =
  package_set :: "string list"
  package_year :: "string list"
  files_process :: "string list"
  loop_feed_locations :: "(string \<times> (string \<times> string list) list) list"

definition feed_files :: "selection \<Rightarrow> string \<Rightarrow> string \<Rightarrow> py_error + string list" where
  "feed_files sel pkg_set year =
     (case map_of (loop_feed_locations sel) pkg_set of
        None \<Rightarrow> Inl KeyError
      | Some years \<Rightarrow>
          (case map_of years year of
             None \<Rightarrow> Inl KeyError
           | Some package_plist \<Rightarrow> Inr package_plist))"

definition build_year :: "config \<Rightarrow> selection \<Rightarrow> network \<Rightarrow> string \<Rightarrow> string \<Rightarrow> state \<Rightarrow>
   py_error + state" where
  "build_year cfg sel net pkg_set year s =
     (case feed_files sel pkg_set year of
        Inl err \<Rightarrow> Inl err
      | Inr package_plist \<Rightarrow>
          if files_process sel \<noteq> []
          then for_each (\<lambda>plist s'. if plist \<in> set package_plist
                                    then process_plist cfg net year plist s'
                                    else Inr s')
                 (files_process sel) s
          else for_each (process_plist cfg net year) package_plist s)"

definition build_master_list :: "config \<Rightarrow> selection \<Rightarrow> network \<Rightarrow> state \<Rightarrow> py_error + state" where
  "build_master_list cfg sel net s =
     for_each (\<lambda>pkg_set. for_each (build_year cfg sel net pkg_set) (package_year sel))
       (package_set sel) s"

subsection \<open>The records a feed contributes\<close>

text \<open>
  The tuple \<^verbatim>\<open>add_loop\<close> builds from its arguments, the record one turn of the loop
  over the packages offers to the filter, the records of all entries of a feed, the
  packages \<^verbatim>\<open>process_plist\<close> reads (from the feed's URL or from the mirror), and the
  filter as a predicate on records.
\<close>

definition the_loop ::
  "string \<Rightarrow> string \<Rightarrow> bool \<Rightarrow> size_val \<Rightarrow> string \<Rightarrow> string \<Rightarrow> string \<Rightarrow> loop" where
  "the_loop name url mandatory sz year loop_for plist =
     \<lparr>pkg_name = name, pkg_url = url, pkg_mandatory = mandatory,
      pkg_size = normalise_size sz, pkg_year = year, pkg_loop_for = loop_for,
      pkg_plist = plist\<rparr>"

definition entry_record ::
  "config \<Rightarrow> network \<Rightarrow> string \<Rightarrow> string \<Rightarrow> string \<Rightarrow> pkg_entry \<Rightarrow> py_error + loop" where
  "entry_record cfg net loop_year loop_for plist e =
     (case entry_name_url cfg loop_year e of
        (name, url) \<Rightarrow>
          map_sum id
            (\<lambda>year. the_loop name url (entry_mandatory e) (entry_size net url e) year
                       loop_for plist)
            (url_year url))"

definition entry_records ::
  "config \<Rightarrow> network \<Rightarrow> string \<Rightarrow> string \<Rightarrow> pkg_entry list \<Rightarrow> loop list" where
  "entry_records cfg net loop_year plist packages =
     concat (map (\<lambda>e. case entry_record cfg net loop_year
                             (filter (\<lambda>c. \<not> is_digit c) (splitext_root plist))
                             (splitext_root plist) e of
                         Inl err \<Rightarrow> []
                       | Inr l \<Rightarrow> [l]) packages)"

definition fetched_packages :: "config \<Rightarrow> network \<Rightarrow> string \<Rightarrow> string \<Rightarrow> pkg_entry list option" where
  "fetched_packages cfg net loop_year plist =
     (case request_url net (build_url cfg loop_year plist) of
        Some request \<Rightarrow> resp_packages request
      | None \<Rightarrow>
          (case request_url net (alt_loop_feed_base_url @ loop_year @ ''/'' @ plist) of
             Some request \<Rightarrow> resp_packages request
           | None \<Rightarrow> None))"

definition selected :: "config \<Rightarrow> loop \<Rightarrow> bool" where
  "selected cfg l =
     (if mandatory_pkg cfg \<and> \<not> optional_pkg cfg then pkg_mandatory l
      else if optional_pkg cfg \<and> \<not> mandatory_pkg cfg then \<not> pkg_mandatory l
      else \<not> mandatory_pkg cfg \<and> \<not> optional_pkg cfg)"

subsection \<open>The Download Orchestrator\<close>

text \<open>
  \<^verbatim>\<open>copy_duplicate\<close>: when the target is not complete, the first directory of the
  glob that holds a complete file of the same name is the source of a copy; a dry run
  only prints.
\<close>

fun copy_scan :: "config \<Rightarrow> loop \<Rightarrow> string list \<Rightarrow> state \<Rightarrow> py_error + state" where
  "copy_scan cfg l [] s = Inr s"
| "copy_scan cfg l (path # rest) s =
     (case file_exists (fs s) l (os_path_join path (pkg_name l)) of
        Inl e \<Rightarrow> Inl e
      | Inr r \<Rightarrow>
          if truthy r then
            (let existing_copy = os_path_join path (pkg_name l)
             in if \<not> dry_run cfg then
                  (case make_storage_location (fs s) (local_directory cfg l) of
                     Inl e \<Rightarrow> Inl e
                   | Inr fs1 \<Rightarrow>
                       (case copy2 fs1 existing_copy (local_file_of cfg l) of
                          Inl e \<Rightarrow> Inl e
                        | Inr fs2 \<Rightarrow> Inr (emit (Msg_copied existing_copy) (s\<lparr>fs := fs2\<rparr>))))
                else Inr (emit (Msg_copy existing_copy) s))
          else copy_scan cfg l rest s)"

definition copy_duplicate :: "globber \<Rightarrow> config \<Rightarrow> loop \<Rightarrow> state \<Rightarrow> py_error + state" where
  "copy_duplicate glob cfg l s =
     (let glob_path = glob (fs s) (glob_pattern cfg)
      in case file_exists (fs s) l (local_file_of cfg l) of
           Inl e \<Rightarrow> Inl e
         | Inr r \<Rightarrow>
             if \<not> truthy r then copy_scan cfg l glob_path s
             else if \<not> dry_run cfg then Inr (emit (Msg_skipped (pkg_name l)) s)
             else Inr (emit (Msg_skip (pkg_name l)) s))"

text \<open>
  The \<^verbatim>\<open>while True\<close> loop of \<^verbatim>\<open>download\<close> over the reads of the body, with the
  bytes received so far. Each chunk is written, then the percentage divides by
  \<^verbatim>\<open>float(loop.pkg_size)\<close>. The percentage itself is only printed and is not kept.
\<close>

fun stream_loop ::
  "config \<Rightarrow> loop \<Rightarrow> string \<Rightarrow> read_result list \<Rightarrow> nat \<Rightarrow> state \<Rightarrow> py_error + state" where
  "stream_loop cfg l local_file [] bytes_so_far s =
     Inr (if \<not> jss_mode cfg then emit Msg_newline s else s)"
| "stream_loop cfg l local_file (ReadError # reads) bytes_so_far s = Inl URLError"
| "stream_loop cfg l local_file (Chunk n # reads) bytes_so_far s =
     (if n = 0 then Inr (if \<not> jss_mode cfg then emit Msg_newline s else s)
      else
        let bytes_so_far' = bytes_so_far + n;
            s1 = s\<lparr>fs := fs_put (fs s) local_file (new_file (fs s) bytes_so_far')\<rparr>
        in case py_float (pkg_size l) of
             Inl e \<Rightarrow> Inl e
           | Inr declared \<Rightarrow>
               if declared = 0 then Inl ZeroDivisionError
               else stream_loop cfg l local_file reads bytes_so_far'
                      (if \<not> jss_mode cfg then emit (Msg_progress (pkg_name l)) s1 else s1))"

text \<open>The bytes a body delivers before its end, which the loop writes to the file.\<close>

fun bytes_received :: "read_result list \<Rightarrow> nat" where
  "bytes_received [] = 0"
| "bytes_received (ReadError # reads) = 0"
| "bytes_received (Chunk n # reads) = (if n = 0 then 0 else n + bytes_received reads)"

text \<open>
  The \<^verbatim>\<open>finally\<close> clause: the request is closed, \<^verbatim>\<open>float(loop.pkg_size)\<close> is appended
  to \<^verbatim>\<open>download_amount\<close> and, when neither raised, the run sleeps.
\<close>

definition finally_clause :: "loop \<Rightarrow> state \<Rightarrow> state" where
  "finally_clause l s =
     (let s1 = emit Request_close s
      in case py_float (pkg_size l) of
           Inl e \<Rightarrow> s1
         | Inr declared \<Rightarrow>
             emit (Sleep_uniform 1 2) (s1\<lparr>download_amount := download_amount s1 @ [declared]\<rparr>))"

text \<open>
  The \<^verbatim>\<open>else\<close> branch of the request with its \<^verbatim>\<open>finally\<close>: an exception of the
  branch leaves through the \<^verbatim>\<open>finally\<close> clause and ends the run.
\<close>

definition transfer :: "config \<Rightarrow> loop \<Rightarrow> string \<Rightarrow> response \<Rightarrow> state \<Rightarrow> py_error + state" where
  "transfer cfg l local_file request s =
     (case open_wb (fs s) local_file of
        Inl e \<Rightarrow> Inl e
      | Inr fs1 \<Rightarrow>
          (case stream_loop cfg l local_file (resp_reads request) 0 (s\<lparr>fs := fs1\<rparr>) of
             Inl e \<Rightarrow> Inl e
           | Inr s2 \<Rightarrow> Inr (finally_clause l s2)))"

definition download :: "config \<Rightarrow> network \<Rightarrow> loop \<Rightarrow> state \<Rightarrow> py_error + state" where
  "download cfg net l s =
     (let local_file = local_file_of cfg l
      in if \<not> dry_run cfg then
           (case make_storage_location (fs s) (local_directory cfg l) of
              Inl e \<Rightarrow> Inl e
            | Inr fs1 \<Rightarrow>
                (case file_exists fs1 l local_file of
                   Inl e \<Rightarrow> Inl e
                 | Inr r \<Rightarrow>
                     if \<not> truthy r then
                       (case request_url net (pkg_url l) of
                          None \<Rightarrow> Inl URLError
                        | Some request \<Rightarrow> transfer cfg l local_file request (s\<lparr>fs := fs1\<rparr>))
                     else Inr (emit (Msg_skipped (pkg_name l)) (s\<lparr>fs := fs1\<rparr>))))
         else
           (case file_exists (fs s) l local_file of
              Inl e \<Rightarrow> Inl e
            | Inr r \<Rightarrow>
                if \<not> truthy r then
                  (case py_float (pkg_size l) of
                     Inl e \<Rightarrow> Inl e
                   | Inr declared \<Rightarrow>
                       Inr ((emit (Msg_download (pkg_name l) declared) s)
                              \<lparr>download_amount := download_amount s @ [declared]\<rparr>))
                else Inr (emit (Msg_skip (pkg_name l)) s)))"

text \<open>
  \<^verbatim>\<open>main_processor\<close>: one turn of the loop over the master list, with the counter of
  downloads; then the report and the disk image.
\<close>

definition process_loop ::
  "globber \<Rightarrow> config \<Rightarrow> network \<Rightarrow> loop \<Rightarrow> state \<times> nat \<Rightarrow> py_error + state \<times> nat" where
  "process_loop glob cfg net l sc =
     (case sc of
        (s, download_counter) \<Rightarrow>
          (case duplicate_file glob cfg (fs s) l of
             Inl e \<Rightarrow> Inl e
           | Inr d \<Rightarrow>
               if truthy d then map_sum id (\<lambda>s'. (s', download_counter)) (copy_duplicate glob cfg l s)
               else
                 (case (if jss_mode cfg
                        then map_sum id (\<lambda>n. emit (Msg_downloading (pkg_name l) n) s)
                               (py_float (pkg_size l))
                        else Inr s) of
                    Inl e \<Rightarrow> Inl e
                  | Inr s1 \<Rightarrow>
                      map_sum id (\<lambda>s'. (s', download_counter + 1)) (download cfg net l s1))))"

definition build_dmg :: "config \<Rightarrow> string \<Rightarrow> state \<Rightarrow> state" where
  "build_dmg cfg path s =
     (if dry_run cfg then emit (Msg_build_dmg path) s
      else emit (Run_hdiutil (download_location cfg) path) s)"

definition process_manifest ::
  "globber \<Rightarrow> config \<Rightarrow> network \<Rightarrow> state \<Rightarrow> py_error + state \<times> nat" where
  "process_manifest glob cfg net s = for_each (process_loop glob cfg net) (master_list s) (s, 0)"

definition report :: "config \<Rightarrow> state \<times> nat \<Rightarrow> state" where
  "report cfg sc =
     (case sc of
        (s, download_counter) \<Rightarrow>
          let total = sum_list (download_amount s);
              s1 = (if dry_run cfg
                    then emit (Msg_to_download (length (master_list s)) download_counter total) s
                    else if length (download_amount s) \<ge> 1
                    then emit (Msg_downloaded download_counter total) s
                    else s)
          in (case dmg_path cfg of
                None \<Rightarrow> s1
              | Some path \<Rightarrow> if path \<noteq> [] then build_dmg cfg path s1 else s1))"

definition main_processor ::
  "globber \<Rightarrow> config \<Rightarrow> selection \<Rightarrow> network \<Rightarrow> state \<Rightarrow> py_error + state" where
  "main_processor glob cfg sel net s =
     (case build_master_list cfg sel net s of
        Inl e \<Rightarrow> Inl e
      | Inr s1 \<Rightarrow> map_sum id (report cfg) (process_manifest glob cfg net s1))"

subsection \<open>What a dry run reports\<close>

text \<open>
  The events that only print; the records and trees on which \<^verbatim>\<open>int\<close> and the division
  by the block size cannot raise; the declared size of a record as \<^verbatim>\<open>float\<close> reads it,
  and the sum over a list of records; the records a dry run reports as downloads (no
  duplicate reported by \<^verbatim>\<open>duplicate_file\<close>, target not complete); and the total the
  report prints.
\<close>

definition is_message :: "event \<Rightarrow> bool" where
  "is_message ev = (case ev of
       Run_hdiutil src dst \<Rightarrow> False
     | Request_close \<Rightarrow> False
     | Sleep_uniform a b \<Rightarrow> False
     | _ \<Rightarrow> True)"

definition sizes_ok :: "loop \<Rightarrow> bool" where
  "sizes_ok l = (case py_int (pkg_size l) of Inl e \<Rightarrow> False | Inr n \<Rightarrow> True)"

definition blocks_ok :: "filesys \<Rightarrow> bool" where
  "blocks_ok fsys = list_all (\<lambda>entry. 0 < st_blksize (snd entry)) (fs_entries fsys)"

definition declared_size :: "loop \<Rightarrow> int" where
  "declared_size l = (case py_float (pkg_size l) of Inl e \<Rightarrow> 0 | Inr n \<Rightarrow> n)"

definition declared_total :: "loop list \<Rightarrow> int" where
  "declared_total ls = sum_list (map declared_size ls)"

definition would_download :: "globber \<Rightarrow> config \<Rightarrow> filesys \<Rightarrow> loop \<Rightarrow> bool" where
  "would_download glob cfg fsys l =
     (\<not> declares_complete (duplicate_file glob cfg fsys l)
      \<and> \<not> declares_complete (file_exists fsys l (local_file_of cfg l)))"

definition reported_total :: "py_error + state \<times> nat \<Rightarrow> py_error + int" where
  "reported_total r = map_sum id (\<lambda>sc. sum_list (download_amount (fst sc))) r"

text \<open>
  The specification's words: an entry is already complete in the download tree when a
  complete file of its name stands at its own local path or in a directory of the glob.
\<close>

definition complete_at_target :: "config \<Rightarrow> filesys \<Rightarrow> loop \<Rightarrow> bool" where
  "complete_at_target cfg fsys l = declares_complete (file_exists fsys l (local_file_of cfg l))"

definition complete_in_tree :: "globber \<Rightarrow> config \<Rightarrow> filesys \<Rightarrow> loop \<Rightarrow> bool" where
  "complete_in_tree glob cfg fsys l =
     (complete_at_target cfg fsys l
      \<or> list_ex (\<lambda>d. declares_complete (file_exists fsys l (os_path_join d (pkg_name l))))
           (glob fsys (glob_pattern cfg)))"

definition not_complete_in_tree ::
  "globber \<Rightarrow> config \<Rightarrow> filesys \<Rightarrow> loop list \<Rightarrow> loop list" where
  "not_complete_in_tree glob cfg fsys ls = filter (\<lambda>l. \<not> complete_in_tree glob cfg fsys l) ls"

subsection \<open>Example inputs\<close>

text \<open>
  A download tree with two directories three levels below the root \<^verbatim>\<open>/r\<close>; the
  second holds \<^verbatim>\<open>x.pkg\<close>, one byte short of the 5000 bytes its record declares.
\<close>

definition ex_stat :: "nat \<Rightarrow> stat" where
  "ex_stat n = \<lparr>st_size = n, st_blksize = 4096, st_isdir = False\<rparr>"

definition ex_dir :: stat where
  "ex_dir = \<lparr>st_size = 64, st_blksize = 4096, st_isdir = True\<rparr>"

definition ex_fs :: filesys where
  "ex_fs = \<lparr>fs_entries = [(''/r/old/2016/a'', ex_dir), (''/r/old/2016/b'', ex_dir),
                           (''/r/old/2016/b/x.pkg'', ex_stat 4999)],
            fs_blksize = 4096, fs_dirsize = 64\<rparr>"

definition ex_loop :: loop where
  "ex_loop = \<lparr>pkg_name = ''x.pkg'',
              pkg_url = ''http://audiocontentdownload.apple.com/lp10_ms3_content_2016/x.pkg'',
              pkg_mandatory = True, pkg_size = SizeStr ''5000'', pkg_year = ''2016'',
              pkg_loop_for = ''garageband'', pkg_plist = ''garageband1021''\<rparr>"

text \<open>
  A run configuration (dry run, no filter, no caching server), a feed of three entries
  (the first listed twice, the second under a legacy path and with a size written with a
  separator), a network that serves the feed and nothing else, and the records of the
  entries.
\<close>

definition ex_cfg :: config where
  "ex_cfg = \<lparr>download_location = ''/r'', dry_run = True, mandatory_pkg = False,
             optional_pkg = False, caching_server = None, cache_base_url = [],
             source_url = [], jss_mode = False, dmg_path = None\<rparr>"

definition ex_entries :: "pkg_entry list" where
  "ex_entries =
     [\<lparr>DownloadName = ''a.pkg'', IsMandatory = Some True, DownloadSize = SizeInt 1000\<rparr>,
      \<lparr>DownloadName = ''../lp10_ms3_content_2013/b.pkg'', IsMandatory = None,
        DownloadSize = SizeStr ''2.000''\<rparr>,
      \<lparr>DownloadName = ''a.pkg'', IsMandatory = Some True, DownloadSize = SizeInt 1000\<rparr>]"

definition ex_net :: network where
  "ex_net url =
     (if url = ''http://audiocontentdownload.apple.com/lp10_ms3_content_2016/garageband1021.plist''
      then Some \<lparr>resp_packages = Some ex_entries, resp_content_length = None, resp_reads = []\<rparr>
      else None)"

definition ex_state :: state where
  "ex_state = \<lparr>master_list = [], download_amount = [], fs = ex_fs, events = []\<rparr>"

definition ex_a :: loop where
  "ex_a = \<lparr>pkg_name = ''a.pkg'',
           pkg_url = ''http://audiocontentdownload.apple.com/lp10_ms3_content_2016/a.pkg'',
           pkg_mandatory = True, pkg_size = SizeInt 1000, pkg_year = ''2016'',
           pkg_loop_for = ''garageband'', pkg_plist = ''garageband1021''\<rparr>"

definition ex_b :: loop where
  "ex_b = \<lparr>pkg_name = ''b.pkg'',
           pkg_url = ''http://audiocontentdownload.apple.com/lp10_ms3_content_2013/b.pkg'',
           pkg_mandatory = False, pkg_size = SizeStr ''2000'', pkg_year = ''2013'',
           pkg_loop_for = ''garageband'', pkg_plist = ''garageband1021''\<rparr>"

definition ex_cfg_mandatory :: config where
  "ex_cfg_mandatory = ex_cfg\<lparr>mandatory_pkg := True\<rparr>"

definition ex_cfg_optional :: config where
  "ex_cfg_optional = ex_cfg\<lparr>optional_pkg := True\<rparr>"

definition ex_sel :: selection where
  "ex_sel = \<lparr>package_set = [''garageband''], package_year = [''2016''], files_process = [],
             loop_feed_locations = [(''garageband'', [(''2016'', [''garageband1021.plist''])])]\<rparr>"

definition ex_legacy_entry :: pkg_entry where
  "ex_legacy_entry = \<lparr>DownloadName = ''../legacy/bar.pkg'', IsMandatory = None,
                       DownloadSize = SizeInt 1\<rparr>"

definition ex_b_entry :: pkg_entry where
  "ex_b_entry = \<lparr>DownloadName = ''../lp10_ms3_content_2013/b.pkg'', IsMandatory = None,
                  DownloadSize = SizeStr ''2.000''\<rparr>"

text \<open>
  A run that is no dry run, a body of 4000 bytes for \<^verbatim>\<open>x.pkg\<close>, and the tree after
  the target directory is made.
\<close>

definition ex_cfg_real :: config where
  "ex_cfg_real = ex_cfg\<lparr>dry_run := False\<rparr>"

definition ex_resp_x :: response where
  "ex_resp_x = \<lparr>resp_packages = None, resp_content_length = None,
                 resp_reads = [Chunk 3000, Chunk 1000]\<rparr>"

definition ex_net_x :: network where
  "ex_net_x url =
     (if url = ''http://audiocontentdownload.apple.com/lp10_ms3_content_2016/x.pkg''
      then Some ex_resp_x else None)"

definition ex_fs_made :: filesys where
  "ex_fs_made = ex_fs\<lparr>fs_entries := fs_entries ex_fs @
       [(''/r'', ex_dir), (''/r/garageband1021'', ex_dir),
        (''/r/garageband1021/mandatory'', ex_dir)]\<rparr>"

text \<open>
  What the glob of the pattern \<^verbatim>\<open>/r/*/*/*/\<close> returns: the two directories of the
  example tree, which none of the example runs changes at that depth. And a manifest of
  the one record \<^verbatim>\<open>x.pkg\<close> over the example tree: a complete file of its name stands
  in the second directory, none at its own local path.
\<close>

definition ex_glob :: globber where
  "ex_glob fsys pattern =
     (if pattern = ''/r/*/*/*/'' then [''/r/old/2016/a/'', ''/r/old/2016/b/''] else [])"

definition ex_state_x :: state where
  "ex_state_x = \<lparr>master_list = [ex_loop], download_amount = [], fs = ex_fs, events = []\<rparr>"

subsection \<open>Theorems\<close>

lemma netloc_base_url: "netloc base_url = ''audiocontentdownload.apple.com''"
  by (simp add: netloc_def base_url_def)

subsubsection \<open>The Completeness Oracle and the URL Resolver\<close>

lemma ex_size: "py_int (pkg_size ex_loop) = Inr 5000"
  by (simp add: ex_loop_def int_of_string_def py_strip_def is_space_def int_of_digits_def
      is_digit_def digits_val_def digit_val_def)

lemma ex_stat_present: "os_stat ex_fs ''/r/old/2016/b/x.pkg'' = Some (ex_stat 4999)"
  by (simp add: os_stat_def ex_fs_def)

lemma ex_stat_absent: "os_stat ex_fs ''/r/old/2016/a/x.pkg'' = None"
  by (simp add: os_stat_def ex_fs_def)

text \<open>
  Claim C1. When the record's size reads as an integer and the block size the filesystem
  reports is positive, \<^verbatim>\<open>file_exists\<close> returns without raising, and it declares the
  file complete exactly when a file exists at the path and the local size divided by the
  block size (rounded down) is at least the declared size divided by the block size
  (rounded down). In particular a missing file is not complete, and a file shorter than
  declared with the same block count is complete.
\<close>

theorem file_exists_block_counts:
  assumes "py_int (pkg_size l) = Inr declared"
      and "\<forall>st. os_stat fsys p = Some st \<longrightarrow> 0 < st_blksize st"
  shows "(\<exists>r. file_exists fsys l p = Inr r)
       \<and> (declares_complete (file_exists fsys l p) \<longleftrightarrow>
            (\<exists>st. os_stat fsys p = Some st
                \<and> declared div int (st_blksize st) \<le> int (st_size st) div int (st_blksize st)))
       \<and> (os_stat fsys p = None \<longrightarrow> \<not> declares_complete (file_exists fsys l p))
       \<and> (\<forall>st. os_stat fsys p = Some st \<and> int (st_size st) < declared
                \<and> int (st_size st) div int (st_blksize st) = declared div int (st_blksize st)
              \<longrightarrow> declares_complete (file_exists fsys l p))"
proof (cases "os_stat fsys p")
  case None
  then show ?thesis by (simp add: file_exists_def declares_complete_def)
next
  case (Some st)
  with assms(2) have "0 < st_blksize st" by simp
  with Some assms(1) show ?thesis
    by (simp add: file_exists_def declares_complete_def Let_def)
qed

theorem file_exists_block_counts_witness:
  "declares_complete (file_exists ex_fs ex_loop ''/r/old/2016/b/x.pkg'')
   \<and> \<not> declares_complete (file_exists ex_fs ex_loop ''/r/old/2016/a/x.pkg'')"
proof -
  have h1: "py_int (pkg_size ex_loop) = Inr 5000" by (rule ex_size)
  have h2: "\<forall>st. os_stat ex_fs ''/r/old/2016/b/x.pkg'' = Some st \<longrightarrow> 0 < st_blksize st"
    by (simp add: ex_stat_present ex_stat_def)
  have h3: "\<forall>st. os_stat ex_fs ''/r/old/2016/a/x.pkg'' = Some st \<longrightarrow> 0 < st_blksize st"
    by (simp add: ex_stat_absent)
  from file_exists_block_counts [OF h1 h2] file_exists_block_counts [OF h1 h3]
    ex_stat_present ex_stat_absent
  show ?thesis by (simp add: ex_stat_def)
qed

text \<open>
  Claim C5. With the configuration \<^verbatim>\<open>__init__\<close> derives from the caching-server
  argument, \<^verbatim>\<open>build_url\<close> returns the origin base, the year, a slash and the filename
  when no caching server is configured or the filename does not end in \<^verbatim>\<open>.pkg\<close>, and
  the cache base (the server address without trailing slashes, then
  \<^verbatim>\<open>/lp10_ms3_content_\<close>), the year, a slash, the filename and
  \<^verbatim>\<open>?source=\<close> with the origin host when a caching server is configured and the
  filename ends in \<^verbatim>\<open>.pkg\<close>.
\<close>

theorem build_url_rule:
  "build_url (configure_cache arg cfg) year filename =
     (case arg of
        None \<Rightarrow> ''http://audiocontentdownload.apple.com/lp10_ms3_content_'' @ year @ ''/'' @ filename
      | Some a \<Rightarrow>
          if rstrip_slash a \<noteq> [] \<and> endswith filename ''.pkg''
          then (rstrip_slash a @ ''/lp10_ms3_content_'') @ year @ ''/'' @ filename
                 @ ''?source=audiocontentdownload.apple.com''
          else ''http://audiocontentdownload.apple.com/lp10_ms3_content_'' @ year @ ''/'' @ filename)"
proof (cases arg)
  case None
  then show ?thesis
    by (simp add: build_url_def configure_cache_def cache_configured_def base_url_def)
next
  case (Some a)
  have e: "rstrip_slash [] = []" by (simp add: rstrip_slash_def)
  show ?thesis
  proof (cases "a = []")
    case True
    with Some e show ?thesis
      by (simp add: build_url_def configure_cache_def cache_configured_def base_url_def)
  next
    case False
    with Some show ?thesis
      by (simp add: build_url_def configure_cache_def cache_configured_def netloc_base_url)
        (simp add: base_url_def)
  qed
qed

subsubsection \<open>The Manifest Builder\<close>

lemma for_each_invariant:
  assumes "for_each body xs s = Inr s'" and "P s"
      and "\<And>x t t'. x \<in> set xs \<Longrightarrow> P t \<Longrightarrow> body x t = Inr t' \<Longrightarrow> P t'"
  shows "P s'"
  using assms
proof (induction xs arbitrary: s)
  case Nil
  then show ?case by simp
next
  case (Cons x xs)
  from Cons.prems(1) obtain t where t: "body x s = Inr t" and rest: "for_each body xs t = Inr s'"
    by (auto split: sum.splits)
  have "P t" using Cons.prems(2,3) t by auto
  with rest Cons.IH Cons.prems(3) show ?case by auto
qed

lemma add_loop_master:
  "master_list (add_loop n u m sz y lf pl s) =
     (if the_loop n u m sz y lf pl \<in> set (master_list s) then master_list s
      else master_list s @ [the_loop n u m sz y lf pl])"
  by (simp add: add_loop_def the_loop_def Let_def)

lemma add_loop_set:
  "set (master_list (add_loop n u m sz y lf pl s)) = insert (the_loop n u m sz y lf pl) (set (master_list s))"
  by (auto simp: add_loop_master)

lemma add_loop_distinct:
  "distinct (master_list s) \<Longrightarrow> distinct (master_list (add_loop n u m sz y lf pl s))"
  by (simp add: add_loop_master)

lemma filter_add_master:
  "master_list (filter_add cfg n u m sz y lf pl s) =
     (if selected cfg (the_loop n u m sz y lf pl) \<and> the_loop n u m sz y lf pl \<notin> set (master_list s)
      then master_list s @ [the_loop n u m sz y lf pl] else master_list s)"
  by (simp add: filter_add_def selected_def add_loop_master Let_def) (simp add: the_loop_def)

lemma process_pkg_record:
  "process_pkg cfg net ly lf pl e s = Inr s' \<Longrightarrow>
     \<exists>l. entry_record cfg net ly lf pl e = Inr l \<and>
         master_list s' = (if selected cfg l \<and> l \<notin> set (master_list s)
                           then master_list s @ [l] else master_list s)"
  by (auto simp: process_pkg_def entry_record_def filter_add_master
      split: prod.splits sum.splits)

lemma packages_master_set:
  "for_each (process_pkg cfg net ly lf pl) es s = Inr s' \<Longrightarrow>
     set (master_list s') = set (master_list s) \<union>
        {l. selected cfg l \<and> (\<exists>e \<in> set es. entry_record cfg net ly lf pl e = Inr l)}
     \<and> (\<forall>e \<in> set es. \<exists>l. entry_record cfg net ly lf pl e = Inr l)"
proof (induction es arbitrary: s)
  case Nil
  then show ?case by simp
next
  case (Cons e es)
  from Cons.prems obtain t where t: "process_pkg cfg net ly lf pl e s = Inr t"
    and rest: "for_each (process_pkg cfg net ly lf pl) es t = Inr s'"
    by (auto split: sum.splits)
  from process_pkg_record [OF t] obtain l where
    l: "entry_record cfg net ly lf pl e = Inr l"
    and m: "master_list t = (if selected cfg l \<and> l \<notin> set (master_list s)
                           then master_list s @ [l] else master_list s)" by blast
  from Cons.IH [OF rest] l m show ?case by auto
qed

lemma packages_distinct:
  assumes "for_each (process_pkg cfg net ly lf pl) es s = Inr s'"
      and "distinct (master_list s)"
  shows "distinct (master_list s')"
proof (rule for_each_invariant [OF assms(1), where P = "\<lambda>s. distinct (master_list s)"])
  show "distinct (master_list s)" by (rule assms(2))
next
  fix x t t'
  assume "distinct (master_list t)" "process_pkg cfg net ly lf pl x t = Inr t'"
  then show "distinct (master_list t')"
    using process_pkg_record by fastforce
qed

lemma fetch_plist_result:
  assumes "fetch_plist cfg net ly plist s = Inr (r, s1)"
  shows "master_list s1 = master_list s \<and> download_amount s1 = download_amount s
       \<and> fs s1 = fs s \<and> fetched_packages cfg net ly plist = resp_packages r"
  using assms
  by (auto simp: fetch_plist_def fetched_packages_def emit_def Let_def split: option.splits)

lemma process_plist_packages:
  assumes "process_plist cfg net ly plist s = Inr s'"
  shows "\<exists>packages s1. fetched_packages cfg net ly plist = Some packages
           \<and> master_list s1 = master_list s
           \<and> for_each (process_pkg cfg net ly (filter (\<lambda>c. \<not> is_digit c) (splitext_root plist))
                          (splitext_root plist)) packages s1 = Inr s'"
proof -
  from assms obtain r s1 packages where
    f: "fetch_plist cfg net ly plist (emit (Msg_processing plist) s) = Inr (r, s1)"
    and p: "resp_packages r = Some packages"
    and run: "for_each (process_pkg cfg net ly (filter (\<lambda>c. \<not> is_digit c) (splitext_root plist))
                          (splitext_root plist)) packages s1 = Inr s'"
    by (auto simp: process_plist_def Let_def split: sum.splits option.splits prod.splits)
  from fetch_plist_result [OF f] p have
    "fetched_packages cfg net ly plist = Some packages" "master_list s1 = master_list s"
    by (simp_all add: emit_def)
  with run show ?thesis by blast
qed

lemma process_plist_distinct:
  assumes "process_plist cfg net ly plist s = Inr s'" and "distinct (master_list s)"
  shows "distinct (master_list s')"
proof -
  from process_plist_packages [OF assms(1)] obtain packages s1 where
    "master_list s1 = master_list s"
    "for_each (process_pkg cfg net ly (filter (\<lambda>c. \<not> is_digit c) (splitext_root plist))
                 (splitext_root plist)) packages s1 = Inr s'" by blast
  with assms(2) packages_distinct show ?thesis by metis
qed

lemma build_year_distinct:
  assumes "build_year cfg sel net pkg_set year s = Inr s'" and "distinct (master_list s)"
  shows "distinct (master_list s')"
proof -
  from assms(1) obtain files where f: "feed_files sel pkg_set year = Inr files"
    by (auto simp: build_year_def split: sum.splits)
  show ?thesis
  proof (cases "files_process sel \<noteq> []")
    case True
    with assms(1) f have run: "for_each (\<lambda>plist s'. if plist \<in> set files
                                    then process_plist cfg net year plist s'
                                    else Inr s') (files_process sel) s = Inr s'"
      by (simp add: build_year_def)
    show ?thesis
    proof (rule for_each_invariant [OF run, where P = "\<lambda>s. distinct (master_list s)"])
      show "distinct (master_list s)" by (rule assms(2))
    next
      fix x t t'
      assume "distinct (master_list t)"
        "(if x \<in> set files then process_plist cfg net year x t else Inr t) = Inr t'"
      then show "distinct (master_list t')"
        using process_plist_distinct by (auto split: if_splits)
    qed
  next
    case False
    with assms(1) f have run: "for_each (process_plist cfg net year) files s = Inr s'"
      by (simp add: build_year_def)
    show ?thesis
    proof (rule for_each_invariant [OF run, where P = "\<lambda>s. distinct (master_list s)"])
      show "distinct (master_list s)" by (rule assms(2))
    next
      fix x t t'
      assume "distinct (master_list t)" "process_plist cfg net year x t = Inr t'"
      then show "distinct (master_list t')" using process_plist_distinct by blast
    qed
  qed
qed

lemma build_master_list_distinct:
  assumes "build_master_list cfg sel net s = Inr s'" and "distinct (master_list s)"
  shows "distinct (master_list s')"
proof (rule for_each_invariant [OF assms(1) [unfolded build_master_list_def],
      where P = "\<lambda>s. distinct (master_list s)"])
  show "distinct (master_list s)" by (rule assms(2))
next
  fix x t t'
  assume d: "distinct (master_list t)"
    and run: "for_each (build_year cfg sel net x) (package_year sel) t = Inr t'"
  show "distinct (master_list t')"
  proof (rule for_each_invariant [OF run, where P = "\<lambda>s. distinct (master_list s)"])
    show "distinct (master_list t)" by (rule d)
  next
    fix y u u'
    assume "distinct (master_list u)" "build_year cfg sel net x y u = Inr u'"
    then show "distinct (master_list u')" using build_year_distinct by blast
  qed
qed

lemma ex_build: "build_master_list ex_cfg ex_sel ex_net ex_state
   = Inr (ex_state\<lparr>master_list := [ex_a, ex_b], events := [Msg_processing ''garageband1021.plist'']\<rparr>)"
  by code_simp

text \<open>
  Claim C4. \<^verbatim>\<open>add_loop\<close> keeps the master list free of duplicates under equality of
  all seven fields: from a duplicate-free list it yields a duplicate-free list whose
  records are the old ones and the new one, so a record that differs from the new one in
  any field stays beside it; and every manifest build that starts from a duplicate-free
  list and returns, returns a duplicate-free list.
\<close>

theorem add_loop_unique:
  assumes "distinct (master_list s)"
  shows "distinct (master_list (add_loop n u m sz y lf pl s))
       \<and> set (master_list (add_loop n u m sz y lf pl s))
           = insert (the_loop n u m sz y lf pl) (set (master_list s))
       \<and> (\<forall>l \<in> set (master_list s). l \<noteq> the_loop n u m sz y lf pl \<longrightarrow>
             l \<in> set (master_list (add_loop n u m sz y lf pl s))
           \<and> the_loop n u m sz y lf pl \<in> set (master_list (add_loop n u m sz y lf pl s)))
       \<and> (\<forall>s'. build_master_list cfg sel net s = Inr s' \<longrightarrow> distinct (master_list s'))"
  using assms add_loop_distinct [of s n u m sz y lf pl] build_master_list_distinct [of cfg sel net s]
  by (simp add: add_loop_set)

lemma ex_run_mandatory:
  "process_plist ex_cfg_mandatory ex_net ''2016'' ''garageband1021.plist'' ex_state
   = Inr (ex_state\<lparr>master_list := [ex_a], events := [Msg_processing ''garageband1021.plist'']\<rparr>)"
  by code_simp

lemma ex_run_optional:
  "process_plist ex_cfg_optional ex_net ''2016'' ''garageband1021.plist'' ex_state
   = Inr (ex_state\<lparr>master_list := [ex_b], events := [Msg_processing ''garageband1021.plist'']\<rparr>)"
  by code_simp

lemma ex_run_unfiltered:
  "process_plist ex_cfg ex_net ''2016'' ''garageband1021.plist'' ex_state
   = Inr (ex_state\<lparr>master_list := [ex_a, ex_b], events := [Msg_processing ''garageband1021.plist'']\<rparr>)"
  by code_simp

lemma ex_records:
  "entry_records ex_cfg ex_net ''2016'' ''garageband1021.plist'' ex_entries = [ex_a, ex_b, ex_a]"
  by code_simp

theorem add_loop_unique_witness:
  "distinct (master_list (add_loop ''a.pkg'' (pkg_url ex_a) True (SizeInt 1000) ''2016''
       ''garageband'' ''garageband1021'' (ex_state\<lparr>master_list := [ex_a]\<rparr>)))
   \<and> master_list (add_loop ''a.pkg'' (pkg_url ex_a) True (SizeInt 1000) ''2016''
       ''garageband'' ''garageband1021'' (ex_state\<lparr>master_list := [ex_a]\<rparr>)) = [ex_a]
   \<and> set (master_list (add_loop ''a.pkg'' (pkg_url ex_a) True (SizeInt 1001) ''2016''
       ''garageband'' ''garageband1021'' (ex_state\<lparr>master_list := [ex_a]\<rparr>)))
      = {ex_a, ex_a\<lparr>pkg_size := SizeInt 1001\<rparr>}
   \<and> distinct [ex_a, ex_b]"
proof -
  have d: "distinct (master_list (ex_state\<lparr>master_list := [ex_a]\<rparr>))" by simp
  have d0: "distinct (master_list ex_state)" by (simp add: ex_state_def)
  have same: "the_loop ''a.pkg'' (pkg_url ex_a) True (SizeInt 1000) ''2016''
       ''garageband'' ''garageband1021'' = ex_a"
    by (simp add: the_loop_def ex_a_def)
  have other: "the_loop ''a.pkg'' (pkg_url ex_a) True (SizeInt 1001) ''2016''
       ''garageband'' ''garageband1021'' = ex_a\<lparr>pkg_size := SizeInt 1001\<rparr>"
    by (simp add: the_loop_def ex_a_def)
  from add_loop_unique [OF d, of "''a.pkg''" "pkg_url ex_a" True "SizeInt 1000" "''2016''"
      "''garageband''" "''garageband1021''"]
    add_loop_unique [OF d, of "''a.pkg''" "pkg_url ex_a" True "SizeInt 1001" "''2016''"
      "''garageband''" "''garageband1021''"]
    add_loop_unique [OF d0, of _ _ _ _ _ _ _ ex_cfg ex_sel ex_net] ex_build
  show ?thesis
    by (simp add: same other add_loop_master insert_commute)
qed

text \<open>
  Claim C3. When \<^verbatim>\<open>process_plist\<close> returns, every entry of the feed it read has
  produced a record, and the master list holds, beside what it held before: in a
  mandatory-only run exactly the records with \<^verbatim>\<open>pkg_mandatory\<close> true, so every
  inserted record is mandatory; in an optional-only run exactly the records with
  \<^verbatim>\<open>pkg_mandatory\<close> false, so every inserted record is optional; and with neither flag
  the records of all entries.
\<close>

theorem process_plist_filter:
  assumes "process_plist cfg net loop_year plist s = Inr s'"
  shows "\<exists>packages. fetched_packages cfg net loop_year plist = Some packages
     \<and> length (entry_records cfg net loop_year plist packages) = length packages
     \<and> (mandatory_pkg cfg \<and> \<not> optional_pkg cfg \<longrightarrow>
          set (master_list s') = set (master_list s)
             \<union> set (filter pkg_mandatory (entry_records cfg net loop_year plist packages))
          \<and> (\<forall>l \<in> set (master_list s') - set (master_list s). pkg_mandatory l))
     \<and> (optional_pkg cfg \<and> \<not> mandatory_pkg cfg \<longrightarrow>
          set (master_list s') = set (master_list s)
             \<union> set (filter (\<lambda>l. \<not> pkg_mandatory l)
                      (entry_records cfg net loop_year plist packages))
          \<and> (\<forall>l \<in> set (master_list s') - set (master_list s). \<not> pkg_mandatory l))
     \<and> (\<not> mandatory_pkg cfg \<and> \<not> optional_pkg cfg \<longrightarrow>
          set (master_list s') = set (master_list s)
             \<union> set (entry_records cfg net loop_year plist packages))"
proof -
  let ?lf = "filter (\<lambda>c. \<not> is_digit c) (splitext_root plist)"
  let ?pl = "splitext_root plist"
  from process_plist_packages [OF assms] obtain packages s1 where
    f: "fetched_packages cfg net loop_year plist = Some packages"
    and m: "master_list s1 = master_list s"
    and run: "for_each (process_pkg cfg net loop_year ?lf ?pl) packages s1 = Inr s'" by blast
  from packages_master_set [OF run] m have
    st: "set (master_list s') = set (master_list s) \<union>
        {l. selected cfg l \<and> (\<exists>e \<in> set packages. entry_record cfg net loop_year ?lf ?pl e = Inr l)}"
    and all: "\<forall>e \<in> set packages. \<exists>l. entry_record cfg net loop_year ?lf ?pl e = Inr l"
    by simp_all
  have recs: "set (entry_records cfg net loop_year plist packages)
      = {l. \<exists>e \<in> set packages. entry_record cfg net loop_year ?lf ?pl e = Inr l}"
    by (auto simp: entry_records_def split: sum.splits)
  have len: "length (entry_records cfg net loop_year plist packages) = length packages"
    using all by (induction packages) (auto simp: entry_records_def split: sum.splits)
  have a: "mandatory_pkg cfg \<and> \<not> optional_pkg cfg \<longrightarrow>
          set (master_list s') = set (master_list s)
             \<union> set (filter pkg_mandatory (entry_records cfg net loop_year plist packages))"
    using st recs by (auto simp: selected_def)
  have b: "optional_pkg cfg \<and> \<not> mandatory_pkg cfg \<longrightarrow>
          set (master_list s') = set (master_list s)
             \<union> set (filter (\<lambda>l. \<not> pkg_mandatory l)
                      (entry_records cfg net loop_year plist packages))"
    using st recs by (auto simp: selected_def)
  have c: "\<not> mandatory_pkg cfg \<and> \<not> optional_pkg cfg \<longrightarrow>
          set (master_list s') = set (master_list s)
             \<union> set (entry_records cfg net loop_year plist packages)"
    using st recs by (auto simp: selected_def)
  from a have a': "mandatory_pkg cfg \<and> \<not> optional_pkg cfg \<longrightarrow>
      (\<forall>l \<in> set (master_list s') - set (master_list s). pkg_mandatory l)" by auto
  from b have b': "optional_pkg cfg \<and> \<not> mandatory_pkg cfg \<longrightarrow>
      (\<forall>l \<in> set (master_list s') - set (master_list s). \<not> pkg_mandatory l)" by auto
  from f len a a' b b' c show ?thesis by blast
qed

theorem process_plist_filter_witness:
  "set [ex_a] = set (master_list ex_state) \<union> set (filter pkg_mandatory [ex_a, ex_b, ex_a])
   \<and> set [ex_b] = set (master_list ex_state)
        \<union> set (filter (\<lambda>l. \<not> pkg_mandatory l) [ex_a, ex_b, ex_a])
   \<and> set [ex_a, ex_b] = set (master_list ex_state) \<union> set [ex_a, ex_b, ex_a]"
proof -
  have f: "fetched_packages ex_cfg ex_net ''2016'' ''garageband1021.plist'' = Some ex_entries"
    "fetched_packages ex_cfg_mandatory ex_net ''2016'' ''garageband1021.plist'' = Some ex_entries"
    "fetched_packages ex_cfg_optional ex_net ''2016'' ''garageband1021.plist'' = Some ex_entries"
    by (simp_all add: fetched_packages_def build_url_def cache_configured_def ex_cfg_def
        ex_cfg_mandatory_def ex_cfg_optional_def base_url_def request_url_def ex_net_def)
  have r: "entry_records ex_cfg_mandatory ex_net ''2016'' ''garageband1021.plist'' ex_entries
             = [ex_a, ex_b, ex_a]"
    "entry_records ex_cfg_optional ex_net ''2016'' ''garageband1021.plist'' ex_entries
             = [ex_a, ex_b, ex_a]"
    by code_simp+
  have flags: "mandatory_pkg ex_cfg_mandatory \<and> \<not> optional_pkg ex_cfg_mandatory"
    "optional_pkg ex_cfg_optional \<and> \<not> mandatory_pkg ex_cfg_optional"
    "\<not> mandatory_pkg ex_cfg \<and> \<not> optional_pkg ex_cfg"
    by (simp_all add: ex_cfg_def ex_cfg_mandatory_def ex_cfg_optional_def)
  from process_plist_filter [OF ex_run_mandatory] obtain pm where
    "fetched_packages ex_cfg_mandatory ex_net ''2016'' ''garageband1021.plist'' = Some pm"
    "mandatory_pkg ex_cfg_mandatory \<and> \<not> optional_pkg ex_cfg_mandatory \<longrightarrow>
       set (master_list (ex_state\<lparr>master_list := [ex_a],
              events := [Msg_processing ''garageband1021.plist'']\<rparr>))
       = set (master_list ex_state) \<union> set (filter pkg_mandatory
           (entry_records ex_cfg_mandatory ex_net ''2016'' ''garageband1021.plist'' pm))"
    by blast
  with f(2) flags(1) r(1)
  have 1: "set [ex_a] = set (master_list ex_state) \<union> set (filter pkg_mandatory [ex_a, ex_b, ex_a])"
    by simp
  from process_plist_filter [OF ex_run_optional] obtain po where
    "fetched_packages ex_cfg_optional ex_net ''2016'' ''garageband1021.plist'' = Some po"
    "optional_pkg ex_cfg_optional \<and> \<not> mandatory_pkg ex_cfg_optional \<longrightarrow>
       set (master_list (ex_state\<lparr>master_list := [ex_b],
              events := [Msg_processing ''garageband1021.plist'']\<rparr>))
       = set (master_list ex_state) \<union> set (filter (\<lambda>l. \<not> pkg_mandatory l)
           (entry_records ex_cfg_optional ex_net ''2016'' ''garageband1021.plist'' po))"
    by blast
  with f(3) flags(2) r(2)
  have 2: "set [ex_b] = set (master_list ex_state)
        \<union> set (filter (\<lambda>l. \<not> pkg_mandatory l) [ex_a, ex_b, ex_a])"
    by simp
  from process_plist_filter [OF ex_run_unfiltered] obtain pu where
    "fetched_packages ex_cfg ex_net ''2016'' ''garageband1021.plist'' = Some pu"
    "\<not> mandatory_pkg ex_cfg \<and> \<not> optional_pkg ex_cfg \<longrightarrow>
       set (master_list (ex_state\<lparr>master_list := [ex_a, ex_b],
              events := [Msg_processing ''garageband1021.plist'']\<rparr>))
       = set (master_list ex_state) \<union> set
           (entry_records ex_cfg ex_net ''2016'' ''garageband1021.plist'' pu)"
    by blast
  with f(1) flags(3) ex_records
  have 3: "set [ex_a, ex_b] = set (master_list ex_state) \<union> set [ex_a, ex_b, ex_a]"
    by simp
  from 1 2 3 show ?thesis by (intro conjI)
qed

text \<open>
  One turn of the loop for an entry whose \<^verbatim>\<open>DownloadName\<close> begins with \<^verbatim>\<open>../\<close>,
  by the slash-separated segments of the legacy URL (the fixed origin followed by the
  name without the marker) that contain \<^verbatim>\<open>lp10_ms3\<close>: with such a segment, the
  record has the base filename as name, the legacy URL as URL and the last four
  characters of the first such segment as year, whatever the year of the loop variable.
\<close>

lemma legacy_path_rewrite:
  assumes "startswith (DownloadName e) ''../''"
  shows "process_pkg cfg net loop_year loop_for plist e s =
     (case filter (\<lambda>x. py_contains x ''lp10_ms3'')
             (py_split CHR ''/'' (''http://audiocontentdownload.apple.com/'' @ drop 3 (DownloadName e))) of
        [] \<Rightarrow> Inl IndexError
      | seg # segs \<Rightarrow>
          Inr (filter_add cfg (os_path_basename (DownloadName e))
                 (''http://audiocontentdownload.apple.com/'' @ drop 3 (DownloadName e))
                 (entry_mandatory e)
                 (entry_size net (''http://audiocontentdownload.apple.com/'' @ drop 3 (DownloadName e)) e)
                 (last4 seg) loop_for plist s))"
  using assms
  by (simp add: process_pkg_def entry_name_url_def url_year_def marker_years_def
      legacy_origin_def Let_def split: list.splits)

lemma legacy_path_rewrite_example:
  "process_pkg ex_cfg ex_net ''2016'' ''garageband'' ''garageband1021'' ex_b_entry ex_state
   = Inr (ex_state\<lparr>master_list := [ex_b]\<rparr>)"
proof -
  have h: "startswith (DownloadName ex_b_entry) ''../''" by code_simp
  have segs: "filter (\<lambda>x. py_contains x ''lp10_ms3'')
             (py_split CHR ''/'' (''http://audiocontentdownload.apple.com/'' @ drop 3 (DownloadName ex_b_entry)))
       = [''lp10_ms3_content_2013'']"
    by code_simp
  have r: "filter_add ex_cfg (os_path_basename (DownloadName ex_b_entry))
                 (''http://audiocontentdownload.apple.com/'' @ drop 3 (DownloadName ex_b_entry))
                 (entry_mandatory ex_b_entry)
                 (entry_size ex_net (''http://audiocontentdownload.apple.com/'' @ drop 3 (DownloadName ex_b_entry)) ex_b_entry)
                 (last4 ''lp10_ms3_content_2013'') ''garageband'' ''garageband1021'' ex_state
        = ex_state\<lparr>master_list := [ex_b]\<rparr>"
    by code_simp
  from legacy_path_rewrite [OF h, of ex_cfg ex_net "''2016''" "''garageband''" "''garageband1021''" ex_state]
  show ?thesis by (simp only: segs r list.case)
qed

text \<open>
  Claim C6. The entry \<^verbatim>\<open>../legacy/bar.pkg\<close> begins with the relative-parent marker.
  No segment of its legacy URL contains \<^verbatim>\<open>lp10_ms3\<close>, so line 330 takes the first
  element of an empty list: the turn of the loop raises \<^verbatim>\<open>IndexError\<close> instead of
  giving the record \<^verbatim>\<open>bar.pkg\<close>, and the loop over a feed that lists the entry after
  three good ones ends with that exception.
\<close>

theorem legacy_path_without_marker_raises:
  "startswith (DownloadName ex_legacy_entry) ''../''
   \<and> marker_years (legacy_origin @ drop 3 (DownloadName ex_legacy_entry)) = []
   \<and> process_pkg ex_cfg ex_net ''2016'' ''garageband'' ''garageband1021'' ex_legacy_entry ex_state
       = Inl IndexError
   \<and> for_each (process_pkg ex_cfg ex_net ''2016'' ''garageband'' ''garageband1021'')
        (ex_entries @ [ex_legacy_entry]) ex_state = Inl IndexError"
  by code_simp

text \<open>
  Claim C8. For an entry that has reached the size probe (its name, URL and year are
  resolved), a probe that fails leaves the feed's \<^verbatim>\<open>DownloadSize\<close> as the size, and
  the turn of the loop returns with the record built from that size offered to the
  filter. No answer of the network can make the loop over the packages raise: whenever
  the year of every entry can be read off its URL, the loop returns.
\<close>

theorem size_probe_failure_falls_back:
  assumes "size_probe net url = None"
      and "entry_name_url cfg loop_year e = (name, url)"
      and "url_year url = Inr year"
  shows "entry_size net url e = DownloadSize e
       \<and> process_pkg cfg net loop_year loop_for plist e s =
           Inr (filter_add cfg name url (entry_mandatory e) (DownloadSize e) year loop_for plist s)
       \<and> (\<forall>packages t. (\<forall>p \<in> set packages. \<exists>y. url_year (snd (entry_name_url cfg loop_year p)) = Inr y)
             \<longrightarrow> (\<exists>t'. for_each (process_pkg cfg net loop_year loop_for plist) packages t = Inr t'))"
proof -
  have a: "entry_size net url e = DownloadSize e"
    using assms(1) by (simp add: entry_size_def)
  have b: "process_pkg cfg net loop_year loop_for plist e s =
           Inr (filter_add cfg name url (entry_mandatory e) (DownloadSize e) year loop_for plist s)"
    using assms(2,3) a by (simp add: process_pkg_def)
  have c: "(\<forall>p \<in> set packages. \<exists>y. url_year (snd (entry_name_url cfg loop_year p)) = Inr y)
             \<longrightarrow> (\<exists>t'. for_each (process_pkg cfg net loop_year loop_for plist) packages t = Inr t')"
    for packages t
  proof (induction packages arbitrary: t)
    case Nil
    show ?case by simp
  next
    case (Cons p ps)
    show ?case
    proof
      assume all: "\<forall>q \<in> set (p # ps). \<exists>y. url_year (snd (entry_name_url cfg loop_year q)) = Inr y"
      then obtain y where "url_year (snd (entry_name_url cfg loop_year p)) = Inr y" by auto
      then obtain t1 where "process_pkg cfg net loop_year loop_for plist p t = Inr t1"
        by (cases "entry_name_url cfg loop_year p") (simp add: process_pkg_def)
      moreover from Cons.IH [of t1] all
      obtain t' where "for_each (process_pkg cfg net loop_year loop_for plist) ps t1 = Inr t'"
        by auto
      ultimately show "\<exists>t'. for_each (process_pkg cfg net loop_year loop_for plist) (p # ps) t = Inr t'"
        by simp
    qed
  qed
  from a b c show ?thesis by blast
qed

theorem size_probe_failure_falls_back_witness:
  "process_pkg ex_cfg ex_net ''2016'' ''garageband'' ''garageband1021''
     \<lparr>DownloadName = ''a.pkg'', IsMandatory = Some True, DownloadSize = SizeInt 1000\<rparr> ex_state
   = Inr (ex_state\<lparr>master_list := [ex_a]\<rparr>)
   \<and> for_each (process_pkg ex_cfg ex_net ''2016'' ''garageband'' ''garageband1021'') ex_entries
        ex_state = Inr (ex_state\<lparr>master_list := [ex_a, ex_b]\<rparr>)"
proof -
  let ?e = "\<lparr>DownloadName = ''a.pkg'', IsMandatory = Some True, DownloadSize = SizeInt 1000\<rparr>"
  let ?url = "''http://audiocontentdownload.apple.com/lp10_ms3_content_2016/a.pkg''"
  have p: "size_probe ex_net ?url = None"
    by (simp add: size_probe_def request_url_def ex_net_def)
  have n: "entry_name_url ex_cfg ''2016'' ?e = (''a.pkg'', ?url)"
    by code_simp
  have y: "url_year ?url = Inr ''2016''"
    by code_simp
  have r: "filter_add ex_cfg ''a.pkg'' ?url (entry_mandatory ?e) (DownloadSize ?e) ''2016''
             ''garageband'' ''garageband1021'' ex_state = ex_state\<lparr>master_list := [ex_a]\<rparr>"
    by code_simp
  have run: "for_each (process_pkg ex_cfg ex_net ''2016'' ''garageband'' ''garageband1021'')
        ex_entries ex_state = Inr (ex_state\<lparr>master_list := [ex_a, ex_b]\<rparr>)"
    by code_simp
  from size_probe_failure_falls_back [OF p n y, of "''garageband''" "''garageband1021''" ex_state]
  have "process_pkg ex_cfg ex_net ''2016'' ''garageband'' ''garageband1021'' ?e ex_state
       = Inr (filter_add ex_cfg ''a.pkg'' ?url (entry_mandatory ?e) (DownloadSize ?e) ''2016''
             ''garageband'' ''garageband1021'' ex_state)"
    by blast
  with r run show ?thesis by (simp only: simp_thms)
qed

subsubsection \<open>The Duplicate Locator and the callers of the oracle\<close>

text \<open>
  Claim C2. The glob of the example tree lists two directories, the second holds a file
  of the record's name that the oracle declares complete, and \<^verbatim>\<open>duplicate_file\<close>
  answers \<^verbatim>\<open>False\<close>: it returns from the first directory it examines.
\<close>

theorem duplicate_file_first_directory_only:
  "ex_glob ex_fs (glob_pattern ex_cfg) = [''/r/old/2016/a/'', ''/r/old/2016/b/'']
   \<and> file_exists ex_fs ex_loop (os_path_join ''/r/old/2016/b/'' (pkg_name ex_loop)) = Inr (Some True)
   \<and> duplicate_file ex_glob ex_cfg ex_fs ex_loop = Inr (Some False)"
  by code_simp





subsubsection \<open>A completed transfer\<close>

lemma map_of_put_entry:
  "map_of (put_entry p st es) q = (if q = p then Some st else map_of es q)"
  by (induction es) auto

lemma os_stat_fs_put:
  "os_stat (fs_put fsys p st) q = (if q = p then Some st else os_stat fsys q)"
  by (simp add: os_stat_def fs_put_def map_of_put_entry)

lemma fs_put_blksize: "fs_blksize (fs_put fsys p st) = fs_blksize fsys"
  by (simp add: fs_put_def)

lemma new_file_fs_put: "new_file (fs_put fsys p st) n = new_file fsys n"
  by (simp add: new_file_def fs_put_blksize)

lemma stream_loop_result:
  assumes "stream_loop cfg l f reads b s = Inr s'"
  shows "download_amount s' = download_amount s \<and> master_list s' = master_list s
       \<and> (\<exists>evs. events s' = events s @ evs)
       \<and> new_file (fs s') = new_file (fs s)
       \<and> os_stat (fs s') f = (if bytes_received reads = 0 then os_stat (fs s) f
                               else Some (new_file (fs s) (b + bytes_received reads)))"
  using assms
proof (induction cfg l f reads b s rule: stream_loop.induct)
  case (1 cfg l local_file bytes_so_far s)
  then show ?case by (auto simp: emit_def split: if_splits)
next
  case (2 cfg l local_file reads bytes_so_far s)
  then show ?case by simp
next
  case (3 cfg l local_file n reads bytes_so_far s)
  show ?case
  proof (cases "n = 0")
    case True
    with "3.prems" show ?thesis by (auto simp: emit_def split: if_splits)
  next
    case False
    let ?s1 = "s\<lparr>fs := fs_put (fs s) local_file (new_file (fs s) (bytes_so_far + n))\<rparr>"
    let ?s2 = "if \<not> jss_mode cfg then emit (Msg_progress (pkg_name l)) ?s1 else ?s1"
    from "3.prems" False obtain declared where
      d: "py_float (pkg_size l) = Inr declared" "declared \<noteq> 0"
      and run: "stream_loop cfg l local_file reads (bytes_so_far + n) ?s2 = Inr s'"
      by (auto simp: Let_def split: sum.splits if_splits)
    from "3.IH" [OF False refl refl d(1) d(2) run]
    have ih: "download_amount s' = download_amount ?s2 \<and> master_list s' = master_list ?s2
       \<and> (\<exists>evs. events s' = events ?s2 @ evs)
       \<and> new_file (fs s') = new_file (fs ?s2)
       \<and> os_stat (fs s') local_file =
           (if bytes_received reads = 0 then os_stat (fs ?s2) local_file
            else Some (new_file (fs ?s2) (bytes_so_far + n + bytes_received reads)))" .
    have nf: "new_file (fs ?s2) = new_file (fs s)"
      by (auto simp: emit_def new_file_fs_put)
    have st: "os_stat (fs ?s2) local_file = Some (new_file (fs s) (bytes_so_far + n))"
      by (simp add: emit_def os_stat_fs_put)
    from ih nf st False show ?thesis
      by (auto simp: emit_def add.assoc)
  qed
qed

text \<open>
  Claim C9, as amended. When a transfer is made (no dry run, the target is not complete,
  the request is answered) and \<^verbatim>\<open>download\<close> returns, the target file holds the bytes
  received, the ledger \<^verbatim>\<open>download_amount\<close> has grown by the record's declared size
  \<^verbatim>\<open>float(loop.pkg_size)\<close>, and the last two events are the closing of the request
  and the pause \<^verbatim>\<open>sleep(uniform(1, 2))\<close>.
\<close>

theorem download_records_declared_size:
  assumes "\<not> dry_run cfg"
      and "make_storage_location (fs s) (local_directory cfg l) = Inr fs1"
      and "file_exists fs1 l (local_file_of cfg l) = Inr r" and "\<not> truthy r"
      and "request_url net (pkg_url l) = Some request"
      and "py_float (pkg_size l) = Inr declared"
      and "download cfg net l s = Inr s'"
  shows "download_amount s' = download_amount s @ [declared]
       \<and> (\<exists>evs. events s' = events s @ evs @ [Request_close, Sleep_uniform 1 2])
       \<and> os_stat (fs s') (local_file_of cfg l)
           = Some (new_file fs1 (bytes_received (resp_reads request)))"
proof -
  let ?f = "local_file_of cfg l"
  from assms have t: "transfer cfg l ?f request (s\<lparr>fs := fs1\<rparr>) = Inr s'"
    by (simp add: download_def Let_def)
  then obtain fs2 s2 where
    o: "open_wb fs1 ?f = Inr fs2"
    and run: "stream_loop cfg l ?f (resp_reads request) 0 (s\<lparr>fs := fs2\<rparr>) = Inr s2"
    and fin: "s' = finally_clause l s2"
    by (auto simp: transfer_def split: sum.splits)
  from o have fs2: "fs2 = fs_put fs1 ?f (new_file fs1 0)"
    by (simp add: open_wb_def split: if_splits)
  from stream_loop_result [OF run] obtain evs where
    r: "download_amount s2 = download_amount s" "events s2 = events s @ evs"
      "os_stat (fs s2) ?f = (if bytes_received (resp_reads request) = 0 then os_stat fs2 ?f
                               else Some (new_file fs2 (bytes_received (resp_reads request))))"
    by auto
  from r(3) fs2 have written: "os_stat (fs s2) ?f
      = Some (new_file fs1 (bytes_received (resp_reads request)))"
    by (simp add: os_stat_fs_put new_file_fs_put)
  from fin assms(6) r(1,2) written show ?thesis
    by (simp add: finally_clause_def emit_def Let_def)
qed

text \<open>
  A body of 4000 bytes for a record that declares 5000: the ledger receives 5000.
\<close>

theorem download_ledger_counterexample:
  "request_url ex_net_x (pkg_url ex_loop) = Some ex_resp_x
   \<and> bytes_received (resp_reads ex_resp_x) = 4000
   \<and> map_sum id download_amount (download ex_cfg_real ex_net_x ex_loop ex_state) = Inr [5000]"
  by code_simp

theorem download_records_declared_size_witness:
  "map_sum id download_amount (download ex_cfg_real ex_net_x ex_loop ex_state)
     = Inr (download_amount ex_state @ [5000])
   \<and> map_sum id (\<lambda>s. os_stat (fs s) ''/r/garageband1021/mandatory/x.pkg'')
        (download ex_cfg_real ex_net_x ex_loop ex_state) = Inr (Some (ex_stat 4000))"
proof -
  have h1: "\<not> dry_run ex_cfg_real" by code_simp
  have h2: "make_storage_location (fs ex_state) (local_directory ex_cfg_real ex_loop)
              = Inr ex_fs_made" by code_simp
  have h3: "file_exists ex_fs_made ex_loop (local_file_of ex_cfg_real ex_loop) = Inr None"
    by code_simp
  have h4: "\<not> truthy None" by simp
  have h5: "request_url ex_net_x (pkg_url ex_loop) = Some ex_resp_x" by code_simp
  have h6: "py_float (pkg_size ex_loop) = Inr 5000" by (simp add: py_float_def ex_size)
  have "\<not> isl (download ex_cfg_real ex_net_x ex_loop ex_state)" by code_simp
  then obtain s' where d: "download ex_cfg_real ex_net_x ex_loop ex_state = Inr s'"
    by (cases "download ex_cfg_real ex_net_x ex_loop ex_state") auto
  have f: "local_file_of ex_cfg_real ex_loop = ''/r/garageband1021/mandatory/x.pkg''"
    by code_simp
  have n: "new_file ex_fs_made (bytes_received (resp_reads ex_resp_x)) = ex_stat 4000"
    by code_simp
  from download_records_declared_size [OF h1 h2 h3 h4 h5 h6 d]
  have "download_amount s' = download_amount ex_state @ [5000]"
    "os_stat (fs s') ''/r/garageband1021/mandatory/x.pkg'' = Some (ex_stat 4000)"
    by (simp_all only: f n)
  with d show ?thesis by simp
qed

subsubsection \<open>The dry run\<close>

lemma blocks_okD:
  assumes "blocks_ok fsys" and "os_stat fsys p = Some st"
  shows "0 < st_blksize st"
proof -
  from assms(2) have "(p, st) \<in> set (fs_entries fsys)"
    by (auto simp: os_stat_def dest: map_of_SomeD)
  with assms(1) show ?thesis by (auto simp: blocks_ok_def list_all_iff)
qed

lemma file_exists_returns:
  assumes "sizes_ok l" and "blocks_ok fsys"
  shows "\<exists>r. file_exists fsys l p = Inr r \<and> truthy r = declares_complete (file_exists fsys l p)"
proof (cases "os_stat fsys p")
  case None
  then show ?thesis by (simp add: file_exists_def declares_complete_def)
next
  case (Some st)
  from assms(1) obtain n where n: "py_int (pkg_size l) = Inr n"
    by (auto simp: sizes_ok_def split: sum.splits)
  from blocks_okD [OF assms(2) Some] have "0 < st_blksize st" .
  with Some n show ?thesis by (simp add: file_exists_def declares_complete_def Let_def)
qed

lemma duplicate_file_returns:
  assumes "sizes_ok l" and "blocks_ok fsys"
  shows "\<exists>d. duplicate_file glob cfg fsys l = Inr d
           \<and> truthy d = declares_complete (duplicate_file glob cfg fsys l)"
proof (cases "glob fsys (glob_pattern cfg)")
  case Nil
  then show ?thesis by (simp add: duplicate_file_def declares_complete_def)
next
  case (Cons d ds)
  from file_exists_returns [OF assms, of "os_path_join d (pkg_name l)"]
  obtain r where "file_exists fsys l (os_path_join d (pkg_name l)) = Inr r" by blast
  with Cons show ?thesis by (simp add: duplicate_file_def declares_complete_def)
qed

lemma copy_scan_dry:
  assumes "dry_run cfg" and "sizes_ok l" and "blocks_ok (fs s)"
  shows "\<exists>evs. copy_scan cfg l ds s = Inr (s\<lparr>events := events s @ evs\<rparr>) \<and> list_all is_message evs"
proof (induction ds)
  case Nil
  have "copy_scan cfg l [] s = Inr (s\<lparr>events := events s @ []\<rparr>)" by simp
  moreover have "list_all is_message []" by simp
  ultimately show ?case by blast
next
  case (Cons d ds)
  from file_exists_returns [OF assms(2,3), of "os_path_join d (pkg_name l)"]
  obtain r where r: "file_exists (fs s) l (os_path_join d (pkg_name l)) = Inr r" by blast
  show ?case
  proof (cases "truthy r")
    case True
    with r assms(1) have "copy_scan cfg l (d # ds) s
        = Inr (s\<lparr>events := events s @ [Msg_copy (os_path_join d (pkg_name l))]\<rparr>)"
      by (simp add: emit_def Let_def)
    moreover have "list_all is_message [Msg_copy (os_path_join d (pkg_name l))]"
      by (simp add: is_message_def)
    ultimately show ?thesis by blast
  next
    case False
    with r Cons.IH show ?thesis by simp
  qed
qed

lemma copy_duplicate_dry:
  assumes "dry_run cfg" and "sizes_ok l" and "blocks_ok (fs s)"
  shows "\<exists>evs. copy_duplicate glob cfg l s = Inr (s\<lparr>events := events s @ evs\<rparr>) \<and> list_all is_message evs"
proof -
  from file_exists_returns [OF assms(2,3), of "local_file_of cfg l"]
  obtain r where r: "file_exists (fs s) l (local_file_of cfg l) = Inr r" by blast
  show ?thesis
  proof (cases "truthy r")
    case True
    with r assms(1) have "copy_duplicate glob cfg l s
        = Inr (s\<lparr>events := events s @ [Msg_skip (pkg_name l)]\<rparr>)"
      by (simp add: copy_duplicate_def emit_def Let_def)
    moreover have "list_all is_message [Msg_skip (pkg_name l)]" by (simp add: is_message_def)
    ultimately show ?thesis by blast
  next
    case False
    with r copy_scan_dry [OF assms] show ?thesis by (simp add: copy_duplicate_def Let_def)
  qed
qed

lemma download_dry:
  assumes "dry_run cfg" and "sizes_ok l" and "blocks_ok (fs s)"
  shows "\<exists>evs. download cfg net l s =
      Inr (s\<lparr>events := events s @ evs,
             download_amount := download_amount s @
               (if declares_complete (file_exists (fs s) l (local_file_of cfg l)) then []
                else [declared_size l])\<rparr>)
      \<and> list_all is_message evs"
proof -
  from file_exists_returns [OF assms(2,3), of "local_file_of cfg l"]
  obtain r where r: "file_exists (fs s) l (local_file_of cfg l) = Inr r"
    and t: "truthy r = declares_complete (file_exists (fs s) l (local_file_of cfg l))" by blast
  from assms(2) obtain n where n: "py_float (pkg_size l) = Inr n"
    by (auto simp: sizes_ok_def py_float_def split: sum.splits)
  show ?thesis
  proof (cases "truthy r")
    case True
    with r t assms(1) have "download cfg net l s =
      Inr (s\<lparr>events := events s @ [Msg_skip (pkg_name l)],
             download_amount := download_amount s @
               (if declares_complete (file_exists (fs s) l (local_file_of cfg l)) then []
                else [declared_size l])\<rparr>)"
      by (simp add: download_def emit_def Let_def)
    moreover have "list_all is_message [Msg_skip (pkg_name l)]" by (simp add: is_message_def)
    ultimately show ?thesis by blast
  next
    case False
    with r t n assms(1) have "download cfg net l s =
      Inr (s\<lparr>events := events s @ [Msg_download (pkg_name l) n],
             download_amount := download_amount s @
               (if declares_complete (file_exists (fs s) l (local_file_of cfg l)) then []
                else [declared_size l])\<rparr>)"
      by (simp add: download_def emit_def Let_def declared_size_def)
    moreover have "list_all is_message [Msg_download (pkg_name l) n]"
      by (simp add: is_message_def)
    ultimately show ?thesis by blast
  qed
qed

lemma process_loop_dry:
  assumes "dry_run cfg" and "sizes_ok l" and "blocks_ok (fs s)"
  shows "\<exists>s' c'. process_loop glob cfg net l (s, c) = Inr (s', c')
       \<and> fs s' = fs s \<and> master_list s' = master_list s
       \<and> download_amount s' = download_amount s @
            (if would_download glob cfg (fs s) l then [declared_size l] else [])
       \<and> (\<exists>evs. events s' = events s @ evs \<and> list_all is_message evs)"
proof -
  from duplicate_file_returns [OF assms(2,3), of glob cfg]
  obtain d where d: "duplicate_file glob cfg (fs s) l = Inr d"
    and t: "truthy d = declares_complete (duplicate_file glob cfg (fs s) l)" by blast
  show ?thesis
  proof (cases "truthy d")
    case True
    from copy_duplicate_dry [OF assms, of glob] obtain evs where
      "copy_duplicate glob cfg l s = Inr (s\<lparr>events := events s @ evs\<rparr>)" "list_all is_message evs"
      by blast
    with d t True show ?thesis by (simp add: process_loop_def would_download_def)
  next
    case False
    from assms(2) obtain n where n: "py_float (pkg_size l) = Inr n"
      by (auto simp: sizes_ok_def py_float_def split: sum.splits)
    let ?s1 = "if jss_mode cfg then emit (Msg_downloading (pkg_name l) n) s else s"
    have b1: "blocks_ok (fs ?s1)" using assms(3) by (simp add: emit_def)
    have e1: "\<exists>evs. events ?s1 = events s @ evs \<and> list_all is_message evs"
    proof (cases "jss_mode cfg")
      case True
      have "list_all is_message [Msg_downloading (pkg_name l) n]" by (simp add: is_message_def)
      with True show ?thesis by (simp add: emit_def)
    next
      case False
      then show ?thesis by simp
    qed
    then obtain evs1 where evs1: "events ?s1 = events s @ evs1" "list_all is_message evs1"
      by blast
    from download_dry [OF assms(1,2) b1, of net] obtain evs where
      dl: "download cfg net l ?s1 =
        Inr (?s1\<lparr>events := events ?s1 @ evs,
               download_amount := download_amount ?s1 @
                 (if declares_complete (file_exists (fs ?s1) l (local_file_of cfg l)) then []
                  else [declared_size l])\<rparr>)"
      and m: "list_all is_message evs" by blast
    have same: "fs ?s1 = fs s" "master_list ?s1 = master_list s"
      "download_amount ?s1 = download_amount s"
      by (simp_all add: emit_def)
    have pl: "process_loop glob cfg net l (s, c) =
        map_sum id (\<lambda>s'. (s', c + 1)) (download cfg net l ?s1)"
      using d False n by (simp add: process_loop_def)
    have ev: "events ?s1 @ evs = events s @ (evs1 @ evs)" "list_all is_message (evs1 @ evs)"
      using evs1 m by simp_all
    from pl dl same t False ev show ?thesis
      by (simp add: would_download_def)
  qed
qed

lemma process_manifest_dry:
  assumes "dry_run cfg" and "list_all sizes_ok ls" and "blocks_ok (fs s)"
  shows "\<exists>s' c'. for_each (process_loop glob cfg net) ls (s, c) = Inr (s', c')
       \<and> fs s' = fs s \<and> master_list s' = master_list s
       \<and> sum_list (download_amount s') = sum_list (download_amount s)
            + declared_total (filter (would_download glob cfg (fs s)) ls)
       \<and> (\<exists>evs. events s' = events s @ evs \<and> list_all is_message evs)"
  using assms(2,3)
proof (induction ls arbitrary: s c)
  case Nil
  then show ?case by (simp add: declared_total_def)
next
  case (Cons l ls)
  from Cons.prems have l: "sizes_ok l" and ls: "list_all sizes_ok ls" by simp_all
  from process_loop_dry [OF assms(1) l Cons.prems(2), of glob net c] obtain s1 c1 evs1 where
    step: "process_loop glob cfg net l (s, c) = Inr (s1, c1)"
    and keep: "fs s1 = fs s" "master_list s1 = master_list s"
    and amt: "download_amount s1 = download_amount s @
            (if would_download glob cfg (fs s) l then [declared_size l] else [])"
    and ev1: "events s1 = events s @ evs1" "list_all is_message evs1" by blast
  from Cons.prems(2) keep(1) have "blocks_ok (fs s1)" by simp
  from Cons.IH [OF ls this, of c1] obtain s' c' evs where
    rest: "for_each (process_loop glob cfg net) ls (s1, c1) = Inr (s', c')"
    and keep': "fs s' = fs s1" "master_list s' = master_list s1"
    and amt': "sum_list (download_amount s') = sum_list (download_amount s1)
            + declared_total (filter (would_download glob cfg (fs s1)) ls)"
    and ev: "events s' = events s1 @ evs" "list_all is_message evs" by blast
  have "events s' = events s @ (evs1 @ evs)" "list_all is_message (evs1 @ evs)"
    using ev ev1 by simp_all
  moreover have "for_each (process_loop glob cfg net) (l # ls) (s, c) = Inr (s', c')"
    using step rest by simp
  moreover have "sum_list (download_amount s') = sum_list (download_amount s)
            + declared_total (filter (would_download glob cfg (fs s)) (l # ls))"
    using amt amt' keep(1) by (simp add: declared_total_def)
  ultimately show ?case using keep keep' by auto
qed

lemma report_dry:
  assumes "dry_run cfg"
  shows "fs (report cfg (s, c)) = fs s
       \<and> (\<exists>evs. events (report cfg (s, c)) =
                 events s @ Msg_to_download (length (master_list s)) c
                              (sum_list (download_amount s)) # evs
               \<and> list_all is_message evs)"
proof -
  have m: "list_all is_message []" "\<And>p. list_all is_message [Msg_build_dmg p]"
    by (simp_all add: is_message_def)
  show ?thesis
  proof (cases "dmg_path cfg")
    case None
    with assms m(1) show ?thesis by (simp add: report_def emit_def Let_def)
  next
    case (Some p)
    with assms m show ?thesis
      by (cases "p = []") (simp_all add: report_def emit_def Let_def build_dmg_def)
  qed
qed

text \<open>
  In a dry run over a manifest whose sizes read as integers and a tree whose block sizes
  are positive, the loop of \<^verbatim>\<open>main_processor\<close> returns; the download tree after the
  loop and after the report is the tree before; every event of the run is a printed
  message (no request is closed, no pause, no disk image built); and the total of the
  report is the ledger's total before the run plus the sum of the declared sizes of the
  records that \<^verbatim>\<open>duplicate_file\<close> does not report and whose own local path is not
  complete.
\<close>

lemma dry_run_purity:
  assumes "dry_run cfg" and "list_all sizes_ok (master_list s)" and "blocks_ok (fs s)"
  shows "\<exists>s' c. process_manifest glob cfg net s = Inr (s', c)
       \<and> fs s' = fs s
       \<and> fs (report cfg (s', c)) = fs s
       \<and> (\<exists>evs. events (report cfg (s', c)) = events s @ evs \<and> list_all is_message evs)
       \<and> Msg_to_download (length (master_list s)) c (sum_list (download_amount s'))
            \<in> set (events (report cfg (s', c)))
       \<and> sum_list (download_amount s') = sum_list (download_amount s)
            + declared_total (filter (would_download glob cfg (fs s)) (master_list s))"
proof -
  from process_manifest_dry [OF assms, of glob net 0] obtain s' c evs where
    run: "process_manifest glob cfg net s = Inr (s', c)"
    and keep: "fs s' = fs s" "master_list s' = master_list s"
    and amt: "sum_list (download_amount s') = sum_list (download_amount s)
            + declared_total (filter (would_download glob cfg (fs s)) (master_list s))"
    and ev: "events s' = events s @ evs" "list_all is_message evs"
    unfolding process_manifest_def by blast
  from report_dry [OF assms(1), of s' c] obtain evs' where
    rfs: "fs (report cfg (s', c)) = fs s'"
    and rev: "events (report cfg (s', c)) =
                 events s' @ Msg_to_download (length (master_list s')) c
                              (sum_list (download_amount s')) # evs'"
      "list_all is_message evs'" by blast
  have msg: "is_message (Msg_to_download (length (master_list s')) c (sum_list (download_amount s')))"
    by (simp add: is_message_def)
  have all: "events (report cfg (s', c)) = events s @ (evs @ Msg_to_download (length (master_list s')) c
                              (sum_list (download_amount s')) # evs')"
    "list_all is_message (evs @ Msg_to_download (length (master_list s')) c
                              (sum_list (download_amount s')) # evs')"
    using rev ev msg by simp_all
  have mem: "Msg_to_download (length (master_list s)) c (sum_list (download_amount s'))
            \<in> set (events (report cfg (s', c)))"
    using rev(1) keep(2) by simp
  from run keep(1) rfs all mem amt show ?thesis by (metis (no_types, lifting))
qed

text \<open>
  Claim C7. A dry run over the manifest of \<^verbatim>\<open>x.pkg\<close>: the glob lists two directories
  and the second holds a complete \<^verbatim>\<open>x.pkg\<close>, so no entry of the manifest is left that is
  not already complete in the tree and the sum of their declared sizes is 0. The run
  leaves the tree as it was, yet it prints \<^verbatim>\<open>x.pkg\<close> as a download and reports 5000
  bytes to download: \<^verbatim>\<open>duplicate_file\<close> has returned from the first directory.
\<close>

theorem dry_run_counts_complete_entry:
  "ex_glob (fs ex_state_x) (glob_pattern ex_cfg) = [''/r/old/2016/a/'', ''/r/old/2016/b/'']
   \<and> file_exists (fs ex_state_x) ex_loop ''/r/old/2016/b/x.pkg'' = Inr (Some True)
   \<and> declared_total (not_complete_in_tree ex_glob ex_cfg (fs ex_state_x) (master_list ex_state_x))
       = 0
   \<and> map_sum id (fs \<circ> fst) (process_manifest ex_glob ex_cfg ex_net ex_state_x)
       = Inr (fs ex_state_x)
   \<and> map_sum id (events \<circ> fst) (process_manifest ex_glob ex_cfg ex_net ex_state_x)
       = Inr [Msg_download ''x.pkg'' 5000]
   \<and> reported_total (process_manifest ex_glob ex_cfg ex_net ex_state_x) = Inr 5000"
  by code_simp

end
